theory Spec2Isabelle
  imports Complex_Main
begin

section \<open>Python values and failures\<close>

text \<open>
  The program is \<^verbatim>\<open>compute_optimal_circle.py\<close> (Python 2). Its floats are modelled as
  the reals they approximate: every arithmetic operation is exact. The exceptions the
  arithmetic can raise are results: \<^verbatim>\<open>math.sqrt\<close> and \<^verbatim>\<open>math.acos\<close> raise
  \<^verbatim>\<open>ValueError: math domain error\<close> outside their domains, a float division or modulo by
  zero raises \<^verbatim>\<open>ZeroDivisionError\<close>.
\<close>

datatype error = DomainError | ZeroDivisionError | ValueError | IndexError

text \<open>
  \<^verbatim>\<open>piece_height\<close> reaches \<^verbatim>\<open>piece_height/2\<close>, which in Python 2 is floor division on an
  \<^verbatim>\<open>int\<close> and true division on a \<^verbatim>\<open>float\<close>; everywhere else an int behaves as the float
  of the same value.
\<close>

datatype pynum = PyInt int | PyFloat real

fun to_float :: "pynum \<Rightarrow> real" where
  "to_float (PyInt n) = of_int n"
| "to_float (PyFloat x) = x"

fun py_half :: "pynum \<Rightarrow> pynum" where
  "py_half (PyInt n) = PyInt (n div 2)"
| "py_half (PyFloat x) = PyFloat (x / 2)"

definition bind_e :: "error + 'a \<Rightarrow> ('a \<Rightarrow> error + 'b) \<Rightarrow> error + 'b" where
  "bind_e m f = (case m of Inl e \<Rightarrow> Inl e | Inr x \<Rightarrow> f x)"

definition py_sqrt :: "real \<Rightarrow> error + real" where
  "py_sqrt x = (if x < 0 then Inl DomainError else Inr (sqrt x))"

definition py_acos :: "real \<Rightarrow> error + real" where
  "py_acos x = (if x < - 1 \<or> 1 < x then Inl DomainError else Inr (arccos x))"

definition py_div :: "real \<Rightarrow> real \<Rightarrow> error + real" where
  "py_div x y = (if y = 0 then Inl ZeroDivisionError else Inr (x / y))"

text \<open>Python's \<^verbatim>\<open>x % y\<close> on floats: the result has the sign of \<^verbatim>\<open>y\<close>.\<close>

definition py_mod :: "real \<Rightarrow> real \<Rightarrow> error + real" where
  "py_mod x y = (if y = 0 then Inl ZeroDivisionError else Inr (x - y * of_int \<lfloor>x / y\<rfloor>))"

section \<open>FunnyCircle\<close>

text \<open>The first argument \<open>d\<close> of every method is \<^verbatim>\<open>self._diameter\<close>.\<close>

definition UnrestrictedFit :: "real \<Rightarrow> real \<Rightarrow> real \<Rightarrow> error + real" where
  "UnrestrictedFit d y piece_height =
     bind_e (py_sqrt ((d / 2) ^ 2 - (y + piece_height) ^ 2)) (\<lambda>s. Inr (2 * s))"

text \<open>
  The band expression inside \<^verbatim>\<open>ComputeSliceError\<close>,
  \<^verbatim>\<open>acos(y/r)*r2 - acos(yh/r)*r2 - y*sqrt(r2 - y*y) + yh*sqrt(r2 - yh*yh)\<close>,
  as a real number (the spec calls it segmentArea).
\<close>

definition segmentArea :: "real \<Rightarrow> real \<Rightarrow> real \<Rightarrow> real" where
  "segmentArea d y h =
     (let r = d / 2; r2 = r * r; yh = y + h
      in arccos (y / r) * r2 - arccos (yh / r) * r2 - y * sqrt (r2 - y * y)
         + yh * sqrt (r2 - yh * yh))"

definition ComputeSliceError :: "real \<Rightarrow> real \<Rightarrow> real \<Rightarrow> real \<Rightarrow> error + real" where
  "ComputeSliceError d y piece_height piece_width =
     (let h = piece_height; w = piece_width; r = d / 2; r2 = r * r; yh = y + h
      in if piece_width \<noteq> 0
         then bind_e (py_div y r) (\<lambda>q1.
              bind_e (py_acos q1) (\<lambda>a1.
              bind_e (py_div yh r) (\<lambda>q2.
              bind_e (py_acos q2) (\<lambda>a2.
              bind_e (py_sqrt (r2 - y * y)) (\<lambda>s1.
              bind_e (py_sqrt (r2 - yh * yh)) (\<lambda>s2.
              Inr \<bar>a1 * r2 - a2 * r2 - y * s1 + yh * s2 - w * h\<bar>))))))
         else bind_e (py_div y r) (\<lambda>q1.
              bind_e (py_acos q1) (\<lambda>a1.
              bind_e (py_sqrt (r2 - y * y)) (\<lambda>s1.
              Inr (a1 * r2 - y * s1)))))"

fun ComputeError :: "real \<Rightarrow> (real \<times> real) list \<Rightarrow> real \<Rightarrow> error + real" where
  "ComputeError d [] piece_height = Inr 0"
| "ComputeError d ((y, w) # rest) piece_height =
     bind_e (ComputeSliceError d y piece_height w) (\<lambda>e.
     bind_e (ComputeError d rest piece_height) (\<lambda>s. Inr (e + s)))"

text \<open>
  Lines 55 to 66 of \<^verbatim>\<open>UnrestrictedFitByPieceWidth\<close>: the locals
  \<^verbatim>\<open>(width_in_pips, uw_min)\<close> after quantisation and the parity step.
\<close>

definition quantized_fit ::
  "real \<Rightarrow> real \<Rightarrow> real \<Rightarrow> real \<Rightarrow> bool \<Rightarrow> bool \<Rightarrow> error + (int \<times> real)" where
  "quantized_fit d y piece_height piece_unit_width align_pips align_even_number =
     bind_e (UnrestrictedFit d y piece_height) (\<lambda>uw.
     bind_e (py_mod uw piece_unit_width) (\<lambda>m.
     let uw_min = uw - m in
     bind_e (py_div uw_min piece_unit_width) (\<lambda>q.
     let width_in_pips = \<lfloor>q\<rfloor> in
     if align_pips then
       if (align_even_number \<and> width_in_pips mod 2 = 0) \<or>
          (\<not> align_even_number \<and> width_in_pips mod 2 \<noteq> 0)
       then Inr (width_in_pips, uw_min)
       else if width_in_pips \<noteq> 0
            then Inr (width_in_pips - 1, uw_min - piece_unit_width)
            else Inr (width_in_pips, uw_min)
     else Inr (width_in_pips, uw_min))))"

text \<open>
  The \<^verbatim>\<open>while True\<close> loop of \<^verbatim>\<open>ConsiderOutsidePieces\<close> on its state
  \<^verbatim>\<open>(current_min, best_error, start)\<close>. \<open>None\<close> is a loop that never ends.
\<close>

partial_function (option) outside_loop ::
  "real \<Rightarrow> real \<Rightarrow> real \<Rightarrow> real \<Rightarrow> bool \<Rightarrow> bool \<Rightarrow> real \<Rightarrow> real \<Rightarrow> bool \<Rightarrow> (error + real) option"
where
  "outside_loop d y piece_height piece_unit_width align_pips align_even_number
       current_min best_error start =
     (let try_extra =
            (if start
             then (if align_pips \<and> align_even_number
                   then piece_unit_width + piece_unit_width else piece_unit_width)
             else (if align_pips then 2 * piece_unit_width else piece_unit_width))
      in case ComputeSliceError d y piece_height (current_min + try_extra) of
           Inl e \<Rightarrow> Some (Inl e)
         | Inr out_error \<Rightarrow>
             if out_error < best_error
             then outside_loop d y piece_height piece_unit_width align_pips align_even_number
                    (current_min + try_extra) out_error False
             else Some (Inr current_min))"

definition ConsiderOutsidePieces ::
  "real \<Rightarrow> real \<Rightarrow> real \<Rightarrow> real \<Rightarrow> real \<Rightarrow> real \<Rightarrow> bool \<Rightarrow> bool \<Rightarrow> (error + real) option" where
  "ConsiderOutsidePieces d y piece_height piece_unit_width in_best_error in_best_width
       align_pips align_even_number =
     outside_loop d y piece_height piece_unit_width align_pips align_even_number
       in_best_width in_best_error (in_best_width = 0)"

definition UnrestrictedFitByPieceWidth ::
  "real \<Rightarrow> real \<Rightarrow> real \<Rightarrow> real \<Rightarrow> bool \<Rightarrow> bool \<Rightarrow> bool \<Rightarrow> (error + real) option" where
  "UnrestrictedFitByPieceWidth d y piece_height piece_unit_width align_pips
       align_even_number consider_outside =
     (case quantized_fit d y piece_height piece_unit_width align_pips align_even_number of
        Inl e \<Rightarrow> Some (Inl e)
      | Inr (width_in_pips, uw_min) \<Rightarrow>
          if consider_outside
          then (case ComputeSliceError d y piece_height uw_min of
                  Inl e \<Rightarrow> Some (Inl e)
                | Inr in_error \<Rightarrow>
                    ConsiderOutsidePieces d y piece_height piece_unit_width in_error uw_min
                      align_pips align_even_number)
          else Some (Inr uw_min))"

text \<open>
  The \<^verbatim>\<open>while\<close> loop of \<^verbatim>\<open>UnrestrictedFitHalf\<close> on its state
  \<^verbatim>\<open>(y, widths_of_pieces, last_width)\<close>, with the sentinel row appended on exit.
\<close>

partial_function (option) fit_half_loop ::
  "real \<Rightarrow> real \<Rightarrow> real \<Rightarrow> bool \<Rightarrow> bool \<Rightarrow> bool \<Rightarrow> real \<Rightarrow> (real \<times> real) list \<Rightarrow> real
     \<Rightarrow> (error + (real \<times> real) list) option"
where
  "fit_half_loop d piece_height piece_width align_pips align_even_number consider_outside
       y widths_of_pieces last_width =
     (if y + piece_height \<le> d / 2
      then (case UnrestrictedFitByPieceWidth d y piece_height piece_width align_pips
                   align_even_number consider_outside of
              None \<Rightarrow> None
            | Some (Inl e) \<Rightarrow> Some (Inl e)
            | Some (Inr w) \<Rightarrow>
                fit_half_loop d piece_height piece_width align_pips align_even_number
                  consider_outside (y + piece_height) (widths_of_pieces @ [(y, w)]) w)
      else Some (Inr (if last_width \<noteq> 0 then widths_of_pieces @ [(y, 0)]
                      else widths_of_pieces)))"

definition UnrestrictedFitHalf ::
  "real \<Rightarrow> real \<Rightarrow> real \<Rightarrow> real \<Rightarrow> bool \<Rightarrow> bool \<Rightarrow> bool \<Rightarrow> (error + (real \<times> real) list) option"
where
  "UnrestrictedFitHalf d piece_height piece_width vertical_offset align_pips
       align_even_number consider_outside =
     fit_half_loop d piece_height piece_width align_pips align_even_number consider_outside
       vertical_offset [] 0"

text \<open>A solution is the tuple \<^verbatim>\<open>(widths_of_pieces, middle_piece_width, error)\<close>.\<close>

type_synonym solution = "(real \<times> real) list \<times> real \<times> real"

definition FitCircleSplitMiddle ::
  "real \<Rightarrow> pynum \<Rightarrow> real \<Rightarrow> bool \<Rightarrow> bool \<Rightarrow> bool \<Rightarrow> (error + solution) option" where
  "FitCircleSplitMiddle d piece_height piece_width align_pips align_even_number
       consider_outside =
     (case UnrestrictedFitHalf d (to_float piece_height) piece_width 0 align_pips
             align_even_number consider_outside of
        None \<Rightarrow> None
      | Some (Inl e) \<Rightarrow> Some (Inl e)
      | Some (Inr widths_of_pieces) \<Rightarrow>
          (case ComputeError d widths_of_pieces (to_float piece_height) of
             Inl e \<Rightarrow> Some (Inl e)
           | Inr s \<Rightarrow> Some (Inr (widths_of_pieces, 0, 2 * s))))"

definition FitCircleOffsetMiddleHalfPiece ::
  "real \<Rightarrow> pynum \<Rightarrow> real \<Rightarrow> bool \<Rightarrow> bool \<Rightarrow> bool \<Rightarrow> (error + solution) option" where
  "FitCircleOffsetMiddleHalfPiece d piece_height piece_width align_pips align_even_number
       consider_outside =
     (case UnrestrictedFitHalf d (to_float piece_height) piece_width
             (to_float (py_half piece_height)) align_pips align_even_number
             consider_outside of
        None \<Rightarrow> None
      | Some (Inl e) \<Rightarrow> Some (Inl e)
      | Some (Inr widths_of_pieces) \<Rightarrow>
          (case UnrestrictedFitByPieceWidth d 0 (to_float (py_half piece_height)) piece_width
                  align_pips align_even_number consider_outside of
             None \<Rightarrow> None
           | Some (Inl e) \<Rightarrow> Some (Inl e)
           | Some (Inr middle_piece_width) \<Rightarrow>
               (case ComputeError d widths_of_pieces (to_float piece_height) of
                  Inl e \<Rightarrow> Some (Inl e)
                | Inr s \<Rightarrow>
                    (case ComputeSliceError d 0 (to_float (py_half piece_height))
                            piece_width of
                       Inl e \<Rightarrow> Some (Inl e)
                     | Inr m \<Rightarrow>
                         Some (Inr (widths_of_pieces, middle_piece_width,
                                    2 * s + 2 * m))))))"

section \<open>FitCircle and main\<close>

definition bind_r :: "(error + 'a) option \<Rightarrow> ('a \<Rightarrow> (error + 'b) option) \<Rightarrow> (error + 'b) option"
where
  "bind_r m f = (case m of None \<Rightarrow> None | Some (Inl e) \<Rightarrow> Some (Inl e) | Some (Inr x) \<Rightarrow> f x)"

text \<open>
  \<^verbatim>\<open>min(enumerate(es), key=itemgetter(1))\<close>: the first pair \<^verbatim>\<open>(index, value)\<close> whose
  value is least; \<^verbatim>\<open>min\<close> of an empty sequence raises \<^verbatim>\<open>ValueError\<close>.
\<close>

fun min_from :: "nat \<times> real \<Rightarrow> (nat \<times> real) list \<Rightarrow> nat \<times> real" where
  "min_from best [] = best"
| "min_from best (x # xs) = min_from (if snd x < snd best then x else best) xs"

definition min_enumerate :: "real list \<Rightarrow> error + (nat \<times> real)" where
  "min_enumerate es =
     (case enumerate 0 es of [] \<Rightarrow> Inl ValueError | x # xs \<Rightarrow> Inr (min_from x xs))"

text \<open>
  \<^verbatim>\<open>FitCircle\<close> prints its results; the model returns what it prints from: the two
  minima \<^verbatim>\<open>(min_index_align, min_err_align)\<close> and
  \<^verbatim>\<open>(min_index_unalign, min_err_unalign)\<close>, and the list
  \<^verbatim>\<open>widths_middles_errors_align\<close>. The argument \<open>d\<close> is \<^verbatim>\<open>float(diameter)\<close>.
\<close>

record report =
  best_aligned :: "nat \<times> real"
  best_unaligned :: "nat \<times> real"
  widths_middles_errors_align :: "(solution \<times> bool) list"

definition FitCircle :: "real \<Rightarrow> pynum \<Rightarrow> real \<Rightarrow> bool \<Rightarrow> (error + report) option" where
  "FitCircle d piece_height pip_width consider_outside =
     bind_r (FitCircleSplitMiddle d piece_height pip_width False False consider_outside) (\<lambda>s1.
     bind_r (FitCircleOffsetMiddleHalfPiece d piece_height pip_width False False
               consider_outside) (\<lambda>s2.
     bind_r (FitCircleSplitMiddle d piece_height pip_width True True consider_outside) (\<lambda>s3.
     bind_r (FitCircleOffsetMiddleHalfPiece d piece_height pip_width True True
               consider_outside) (\<lambda>s4.
     bind_r (FitCircleSplitMiddle d piece_height pip_width True False consider_outside) (\<lambda>s5.
     bind_r (FitCircleOffsetMiddleHalfPiece d piece_height pip_width True False
               consider_outside) (\<lambda>s6.
     let wmea = [(s1, False), (s2, False), (s3, True), (s4, True), (s5, True), (s6, True)]
     in bind_r (Some (min_enumerate
                        (map (\<lambda>((w, m, e), a). e) (filter (\<lambda>((w, m, e), a). a) wmea))))
          (\<lambda>min_align.
        bind_r (Some (min_enumerate
                        (map (\<lambda>((w, m, e), a). e) (filter (\<lambda>((w, m, e), a). \<not> a) wmea))))
          (\<lambda>min_unalign.
        Some (Inr \<lparr>best_aligned = min_align, best_unaligned = min_unalign,
                   widths_middles_errors_align = wmea\<rparr>)))))))))"

text \<open>
  \<^verbatim>\<open>main\<close> on \<^verbatim>\<open>sys.argv\<close>. Python's \<^verbatim>\<open>float\<close> of a string is a parameter,
  \<open>py_float\<close>; \<open>Usage\<close> is the run that prints the request for a diameter and returns.
\<close>

datatype outcome = Usage | Ran report

definition main :: "(string \<Rightarrow> error + real) \<Rightarrow> string list \<Rightarrow> (error + outcome) option" where
  "main py_float argv =
     (if length argv = 1 then Some (Inr Usage)
      else (case argv of
              a0 # a1 # rest \<Rightarrow>
                if a1 = [] then Some (Inr Usage)
                else (case py_float a1 of
                        Inl e \<Rightarrow> Some (Inl e)
                      | Inr d \<Rightarrow>
                          bind_r (FitCircle d (PyInt 2) 5 True) (\<lambda>r. Some (Inr (Ran r))))
            | _ \<Rightarrow> Some (Inl IndexError)))"

section \<open>The extension search as the specification words it\<close>

text \<open>
  The specification of the outside-extension search: the seed step from a starting width
  \<open>W\<close>, the steady-state step, and the \<open>k\<close>-th candidate width reached from \<open>W\<close> by
  one seed step and \<open>k - 1\<close> steady-state steps. These follow the specification's text,
  to be compared with \<open>ConsiderOutsidePieces\<close>.
\<close>

definition seed_step :: "real \<Rightarrow> bool \<Rightarrow> bool \<Rightarrow> real \<Rightarrow> real" where
  "seed_step pipWidth alignToPips alignEven W =
     (if W = 0
      then (if \<not> alignToPips \<or> \<not> alignEven then pipWidth else 2 * pipWidth)
      else (if alignToPips then 2 * pipWidth else pipWidth))"

definition steady_step :: "real \<Rightarrow> bool \<Rightarrow> real" where
  "steady_step pipWidth alignToPips = (if alignToPips then 2 * pipWidth else pipWidth)"

definition candidate_width :: "real \<Rightarrow> bool \<Rightarrow> bool \<Rightarrow> real \<Rightarrow> nat \<Rightarrow> real" where
  "candidate_width pipWidth alignToPips alignEven W k =
     (if k = 0 then W
      else W + seed_step pipWidth alignToPips alignEven W
             + real (k - 1) * steady_step pipWidth alignToPips)"

section \<open>Facts about the geometry and the row solver\<close>

lemma bind_e_Inr [simp]: "bind_e (Inr x) f = f x"
  by (simp add: bind_e_def)

lemma bind_e_Inl [simp]: "bind_e (Inl e) f = Inl e"
  by (simp add: bind_e_def)

lemma ComputeSliceError_zero_width:
  "ComputeSliceError d y h 0 =
     (if d = 0 then Inl ZeroDivisionError
      else if y / (d / 2) < - 1 \<or> 1 < y / (d / 2) then Inl DomainError
      else if (d / 2) * (d / 2) - y * y < 0 then Inl DomainError
      else Inr (arccos (y / (d / 2)) * ((d / 2) * (d / 2)) - y * sqrt ((d / 2) * (d / 2) - y * y)))"
  by (simp add: ComputeSliceError_def py_div_def py_acos_def py_sqrt_def Let_def)

lemma in_disk:
  fixes d y :: real
  assumes "0 < d" "0 \<le> y" "y \<le> d / 2"
  shows "\<not> (y / (d / 2) < - 1 \<or> 1 < y / (d / 2))" "\<not> ((d / 2) * (d / 2) - y * y < 0)"
proof -
  show "\<not> (y / (d / 2) < - 1 \<or> 1 < y / (d / 2))" using assms by (simp add: field_simps)
  have "y * y \<le> (d / 2) * (d / 2)" using assms by (intro mult_mono) auto
  then show "\<not> ((d / 2) * (d / 2) - y * y < 0)" by simp
qed

lemma ComputeSliceError_in_disk:
  assumes "0 < d" "0 \<le> y" "0 \<le> h" "y + h \<le> d / 2"
  shows "ComputeSliceError d y h w =
           Inr (if w \<noteq> 0 then \<bar>segmentArea d y h - w * h\<bar>
                else arccos (y / (d / 2)) * ((d / 2) * (d / 2)) - y * sqrt ((d / 2) * (d / 2) - y * y))"
proof -
  have y: "y \<le> d / 2" "0 \<le> y + h" using assms by auto
  note a = in_disk[OF assms(1,2) y(1)] in_disk[OF assms(1) y(2) assms(4)]
  show ?thesis using a assms(1)
    by (simp add: ComputeSliceError_def segmentArea_def py_div_def py_acos_def py_sqrt_def Let_def)
qed

lemma segmentArea_cap:
  assumes "0 < d"
  shows "segmentArea d y (d / 2 - y) =
           arccos (y / (d / 2)) * ((d / 2) * (d / 2)) - y * sqrt ((d / 2) * (d / 2) - y * y)"
  using assms by (simp add: segmentArea_def Let_def)

lemma segmentArea_split:
  assumes "0 < d"
  shows "segmentArea d y (d / 2 - y) = segmentArea d y h + segmentArea d (y + h) (d / 2 - (y + h))"
  using assms by (simp add: segmentArea_def Let_def)

lemma ComputeSliceError_width:
  assumes "0 < d" "0 \<le> y" "0 \<le> h" "y + h \<le> d / 2" "x \<noteq> 0"
  shows "ComputeSliceError d y h x = Inr \<bar>segmentArea d y h - x * h\<bar>"
  using ComputeSliceError_in_disk[OF assms(1-4), of x] assms(5) by simp

lemma abs_step_less:
  fixes u b :: real
  assumes "\<bar>u - b\<bar> < \<bar>u\<bar>" "0 \<le> b"
  shows "0 < b" "b / 2 < u"
  using assms by (auto simp: abs_if split: if_splits)

lemma ceiling_measure_decreases:
  fixes t :: real
  assumes "1 / 2 < t"
  shows "nat \<lceil>t - 1\<rceil> < nat \<lceil>t\<rceil>"
proof -
  have "0 < \<lceil>t\<rceil>" using assms by (simp add: ceiling_less_iff less_ceiling_iff)
  moreover have "\<lceil>t - 1\<rceil> = \<lceil>t\<rceil> - 1" by simp
  ultimately show ?thesis by simp
qed

lemma outside_loop_steady:
  fixes d y h w c :: real
  assumes valid: "0 < d" "0 \<le> y" "0 \<le> h" "y + h \<le> d / 2" "0 < w"
    and c: "0 \<le> c"
    and s: "s = (if a then 2 * w else w)"
    and A: "A = segmentArea d y h"
  shows "\<exists>n::nat. outside_loop d y h w a e c \<bar>A - c * h\<bar> False = Some (Inr (c + real n * s)) \<and>
           (\<forall>k<n. \<bar>A - (c + real (Suc k) * s) * h\<bar> < \<bar>A - (c + real k * s) * h\<bar>) \<and>
           \<not> \<bar>A - (c + real (Suc n) * s) * h\<bar> < \<bar>A - (c + real n * s) * h\<bar>"
  using c
proof (induction "nat \<lceil>(A - c * h) / (s * h)\<rceil>" arbitrary: c rule: less_induct)
  case less
  have spos: "0 < s" using valid(5) s by simp
  have cs: "c + s \<noteq> 0" using less.prems spos by linarith
  have unfold: "outside_loop d y h w a e c \<bar>A - c * h\<bar> False =
          (if \<bar>A - (c + s) * h\<bar> < \<bar>A - c * h\<bar>
           then outside_loop d y h w a e (c + s) \<bar>A - (c + s) * h\<bar> False
           else Some (Inr c))"
    using ComputeSliceError_width[OF valid(1-4) cs]
    by (subst outside_loop.simps) (simp add: s A Let_def)
  show ?case
  proof (cases "\<bar>A - (c + s) * h\<bar> < \<bar>A - c * h\<bar>")
    case True
    have "\<bar>(A - c * h) - s * h\<bar> < \<bar>A - c * h\<bar>" using True by (simp add: algebra_simps)
    moreover have "0 \<le> s * h" using spos valid(3) by simp
    ultimately have sh: "0 < s * h" and half: "s * h / 2 < A - c * h"
      by (rule abs_step_less)+
    have "1 / 2 < (A - c * h) / (s * h)" using sh half by (simp add: field_simps)
    then have "nat \<lceil>(A - c * h) / (s * h) - 1\<rceil> < nat \<lceil>(A - c * h) / (s * h)\<rceil>"
      by (rule ceiling_measure_decreases)
    moreover have "(A - (c + s) * h) / (s * h) = (A - c * h) / (s * h) - 1"
    proof -
      have "(A - (c + s) * h) / (s * h) = ((A - c * h) - s * h) / (s * h)"
        by (simp add: algebra_simps)
      also have "\<dots> = (A - c * h) / (s * h) - (s * h) / (s * h)"
        by (rule diff_divide_distrib)
      also have "\<dots> = (A - c * h) / (s * h) - 1"
        using sh by (simp only: divide_self_if less_imp_neq[THEN not_sym] if_False)
      finally show ?thesis .
    qed
    ultimately have m: "nat \<lceil>(A - (c + s) * h) / (s * h)\<rceil> < nat \<lceil>(A - c * h) / (s * h)\<rceil>"
      by simp
    have "0 \<le> c + s" using less.prems spos by simp
    from less.hyps[OF m this] obtain n where
      n: "outside_loop d y h w a e (c + s) \<bar>A - (c + s) * h\<bar> False = Some (Inr (c + s + real n * s))"
        "\<forall>k<n. \<bar>A - (c + s + real (Suc k) * s) * h\<bar> < \<bar>A - (c + s + real k * s) * h\<bar>"
        "\<not> \<bar>A - (c + s + real (Suc n) * s) * h\<bar> < \<bar>A - (c + s + real n * s) * h\<bar>"
      by blast
    have shift: "\<And>k. c + s + real k * s = c + real (Suc k) * s" by (simp add: algebra_simps)
    have "outside_loop d y h w a e c \<bar>A - c * h\<bar> False = Some (Inr (c + real (Suc n) * s))"
      using unfold True n(1) by (simp add: shift)
    moreover have "\<forall>k<Suc n. \<bar>A - (c + real (Suc k) * s) * h\<bar> < \<bar>A - (c + real k * s) * h\<bar>"
    proof (intro allI impI)
      fix k assume k: "k < Suc n"
      show "\<bar>A - (c + real (Suc k) * s) * h\<bar> < \<bar>A - (c + real k * s) * h\<bar>"
      proof (cases k)
        case 0
        then show ?thesis using True by simp
      next
        case (Suc j)
        then have "j < n" using k by simp
        then have "\<bar>A - (c + s + real (Suc j) * s) * h\<bar> < \<bar>A - (c + s + real j * s) * h\<bar>"
          using n(2) by blast
        then show ?thesis unfolding shift Suc .
      qed
    qed
    moreover have "\<not> \<bar>A - (c + real (Suc (Suc n)) * s) * h\<bar> < \<bar>A - (c + real (Suc n) * s) * h\<bar>"
      using n(3) unfolding shift .
    ultimately show ?thesis by blast
  next
    case False
    have "outside_loop d y h w a e c \<bar>A - c * h\<bar> False = Some (Inr (c + real (0::nat) * s))"
      using unfold False by simp
    moreover have "\<not> \<bar>A - (c + real (Suc 0) * s) * h\<bar> < \<bar>A - (c + real (0::nat) * s) * h\<bar>"
      using False by simp
    ultimately show ?thesis by blast
  qed
qed

lemma candidate_width_Suc:
  "candidate_width w a e W (Suc k) = W + seed_step w a e W + real k * steady_step w a"
  by (simp add: candidate_width_def)

lemma candidate_width_0: "candidate_width w a e W 0 = W"
  by (simp add: candidate_width_def)

lemma outside_search_trace:
  fixes d y h w W E :: real
  assumes valid: "0 < d" "0 \<le> y" "0 \<le> h" "y + h \<le> d / 2" "0 < w"
    and W: "0 \<le> W"
    and A: "A = segmentArea d y h"
    and err: "err = (\<lambda>k. if k = 0 then E else \<bar>A - candidate_width w a e W k * h\<bar>)"
  shows "\<exists>n. ConsiderOutsidePieces d y h w E W a e = Some (Inr (candidate_width w a e W n)) \<and>
           (\<forall>k<n. err (Suc k) < err k) \<and> \<not> err (Suc n) < err n"
proof -
  define s0 where "s0 = seed_step w a e W"
  define s where "s = steady_step w a"
  have s_if: "s = (if a then 2 * w else w)" by (simp add: s_def steady_step_def)
  have s0pos: "0 < s0" using valid(5) by (simp add: s0_def seed_step_def)
  have c1: "W + s0 \<noteq> 0" "0 \<le> W + s0" using W s0pos by linarith+
  have cand: "\<And>k. candidate_width w a e W (Suc k) = W + s0 + real k * s"
    by (simp add: candidate_width_Suc s0_def s_def)
  have err_Suc: "\<And>k. err (Suc k) = \<bar>A - (W + s0 + real k * s) * h\<bar>"
    by (simp add: err cand)
  have unfold: "ConsiderOutsidePieces d y h w E W a e =
          (if \<bar>A - (W + s0) * h\<bar> < E
           then outside_loop d y h w a e (W + s0) \<bar>A - (W + s0) * h\<bar> False
           else Some (Inr W))"
    unfolding ConsiderOutsidePieces_def
    using ComputeSliceError_width[OF valid(1-4) c1(1)]
    by (subst outside_loop.simps) (auto simp: s0_def seed_step_def A Let_def)
  show ?thesis
  proof (cases "\<bar>A - (W + s0) * h\<bar> < E")
    case True
    from outside_loop_steady[OF valid c1(2) s_if A, of e] obtain n where
      n: "outside_loop d y h w a e (W + s0) \<bar>A - (W + s0) * h\<bar> False = Some (Inr (W + s0 + real n * s))"
        "\<forall>k<n. \<bar>A - (W + s0 + real (Suc k) * s) * h\<bar> < \<bar>A - (W + s0 + real k * s) * h\<bar>"
        "\<not> \<bar>A - (W + s0 + real (Suc n) * s) * h\<bar> < \<bar>A - (W + s0 + real n * s) * h\<bar>"
      by blast
    have "ConsiderOutsidePieces d y h w E W a e = Some (Inr (candidate_width w a e W (Suc n)))"
      using unfold True n(1) by (simp add: cand)
    moreover have "\<forall>k<Suc n. err (Suc k) < err k"
    proof (intro allI impI)
      fix k assume k: "k < Suc n"
      show "err (Suc k) < err k"
      proof (cases k)
        case 0
        then show ?thesis using True by (simp add: err_Suc) (simp add: err)
      next
        case (Suc j)
        then have "j < n" using k by simp
        then show ?thesis using n(2) unfolding Suc err_Suc by blast
      qed
    qed
    moreover have "\<not> err (Suc (Suc n)) < err (Suc n)"
      using n(3) unfolding err_Suc .
    ultimately show ?thesis by blast
  next
    case False
    have "ConsiderOutsidePieces d y h w E W a e = Some (Inr (candidate_width w a e W 0))"
      using unfold False by (simp add: candidate_width_0)
    moreover have "\<not> err (Suc 0) < err 0"
      using False by (simp add: err_Suc) (simp add: err)
    ultimately show ?thesis by blast
  qed
qed

lemma UnrestrictedFit_in_disk:
  fixes d y h :: real
  assumes "0 < d" "0 \<le> y" "0 \<le> h" "y + h \<le> d / 2"
  shows "UnrestrictedFit d y h = Inr (2 * sqrt ((d / 2) ^ 2 - (y + h) ^ 2))"
proof -
  have "(y + h) ^ 2 \<le> (d / 2) ^ 2" using assms by (intro power_mono) auto
  then show ?thesis by (simp add: UnrestrictedFit_def py_sqrt_def)
qed

lemma quantized_fit_valid:
  fixes d y h w :: real
  assumes valid: "0 < d" "0 \<le> y" "0 \<le> h" "y + h \<le> d / 2" "0 < w"
    and p0: "p0 = \<lfloor>2 * sqrt ((d / 2) ^ 2 - (y + h) ^ 2) / w\<rfloor>"
    and p: "p = (if a \<and> \<not> (e \<longleftrightarrow> even p0) \<and> p0 \<noteq> 0 then p0 - 1 else p0)"
  shows "quantized_fit d y h w a e = Inr (p, of_int p * w)" "0 \<le> p0" "0 \<le> p"
proof -
  let ?uw = "2 * sqrt ((d / 2) ^ 2 - (y + h) ^ 2)"
  have "(y + h) ^ 2 \<le> (d / 2) ^ 2" using valid by (intro power_mono) auto
  then have "0 \<le> ?uw" by simp
  then have "0 \<le> ?uw / w" using valid(5) by simp
  then show p0pos: "0 \<le> p0" unfolding p0 by simp
  then show "0 \<le> p" unfolding p by auto
  have q: "(?uw - (?uw - w * of_int p0)) / w = of_int p0" using valid(5) by simp
  have e: "?uw - (?uw - w * of_int p0) = of_int p0 * w" by simp
  show "quantized_fit d y h w a e = Inr (p, of_int p * w)"
    unfolding quantized_fit_def UnrestrictedFit_in_disk[OF valid(1-4)]
    using valid(5)
    apply (simp add: py_mod_def py_div_def Let_def p0[symmetric] del: of_int_mult)
    apply (auto simp: p algebra_simps even_iff_mod_2_eq_zero)
    done
qed

lemma candidate_width_multiple:
  "\<exists>j::nat. candidate_width w a e W n = W + real j * w"
proof (cases n)
  case 0
  have "candidate_width w a e W 0 = W + real (0::nat) * w" by (simp add: candidate_width_def)
  then show ?thesis unfolding 0 by blast
next
  case (Suc k)
  define j0 :: nat where "j0 = (if W = 0 then (if \<not> a \<or> \<not> e then 1 else 2) else (if a then 2 else 1))"
  define j1 :: nat where "j1 = (if a then 2 else 1)"
  have "seed_step w a e W = real j0 * w" by (simp add: seed_step_def j0_def)
  moreover have "steady_step w a = real j1 * w" by (simp add: steady_step_def j1_def)
  ultimately have "candidate_width w a e W (Suc k) = W + real (j0 + k * j1) * w"
    by (simp add: candidate_width_Suc algebra_simps)
  then show ?thesis unfolding Suc by blast
qed

lemma outside_search_result:
  fixes d y h w W E :: real
  assumes valid: "0 < d" "0 \<le> y" "0 \<le> h" "y + h \<le> d / 2" "0 < w"
    and W: "0 \<le> W"
    and SE: "ComputeSliceError d y h W = Inr E"
  shows "\<exists>R (j::nat) e'. ConsiderOutsidePieces d y h w E W a e = Some (Inr R) \<and>
            R = W + real j * w \<and> ComputeSliceError d y h R = Inr e' \<and> e' \<le> E"
proof -
  define A where "A = segmentArea d y h"
  define err where "err = (\<lambda>k. if k = 0 then E else \<bar>A - candidate_width w a e W k * h\<bar>)"
  from outside_search_trace[OF valid W A_def err_def] obtain n where
    n: "ConsiderOutsidePieces d y h w E W a e = Some (Inr (candidate_width w a e W n))"
       "\<forall>k<n. err (Suc k) < err k"
    by blast
  have le: "k \<le> n \<Longrightarrow> err k \<le> err 0" for k
  proof (induction k)
    case 0
    show ?case by simp
  next
    case (Suc k)
    then have "err (Suc k) < err k" "err k \<le> err 0" using n(2) by auto
    then show ?case by linarith
  qed
  obtain j :: nat where j: "candidate_width w a e W n = W + real j * w"
    using candidate_width_multiple by blast
  have "ComputeSliceError d y h (candidate_width w a e W n) = Inr (err n)"
  proof (cases n)
    case 0
    then show ?thesis using SE by (simp add: err_def candidate_width_0)
  next
    case (Suc k)
    have "0 < seed_step w a e W" using valid(5) by (simp add: seed_step_def)
    moreover have "0 \<le> real k * steady_step w a" using valid(5) by (simp add: steady_step_def)
    ultimately have "candidate_width w a e W n \<noteq> 0"
      using W unfolding Suc candidate_width_Suc by linarith
    from ComputeSliceError_width[OF valid(1-4) this] show ?thesis
      by (simp add: err_def Suc A_def)
  qed
  moreover have "err n \<le> E" using le[of n] by (simp add: err_def)
  ultimately show ?thesis using n(1) j by metis
qed

lemma UnrestrictedFitByPieceWidth_valid:
  fixes d y h w :: real
  assumes valid: "0 < d" "0 \<le> y" "0 \<le> h" "y + h \<le> d / 2" "0 < w"
  shows "\<exists>(p::nat) (j::nat) e0 e1.
           UnrestrictedFitByPieceWidth d y h w a e False = Some (Inr (real p * w)) \<and>
           UnrestrictedFitByPieceWidth d y h w a e True = Some (Inr (real (p + j) * w)) \<and>
           ComputeSliceError d y h (real p * w) = Inr e0 \<and>
           ComputeSliceError d y h (real (p + j) * w) = Inr e1 \<and> e1 \<le> e0"
proof -
  define p0 where "p0 = \<lfloor>2 * sqrt ((d / 2) ^ 2 - (y + h) ^ 2) / w\<rfloor>"
  define q where "q = (if a \<and> \<not> (e \<longleftrightarrow> even p0) \<and> p0 \<noteq> 0 then p0 - 1 else p0)"
  note qf = quantized_fit_valid[OF valid p0_def q_def]
  define p where "p = nat q"
  have pq: "real_of_int q = real p" using qf(3) by (simp add: p_def)
  have W: "0 \<le> real p * w" using valid(5) by simp
  obtain e0 where e0: "ComputeSliceError d y h (real p * w) = Inr e0"
    using ComputeSliceError_in_disk[OF valid(1-4)] by blast
  from outside_search_result[OF valid W e0, of a e] obtain R j e1 where
    R: "ConsiderOutsidePieces d y h w e0 (real p * w) a e = Some (Inr R)"
       "R = real p * w + real j * w" "ComputeSliceError d y h R = Inr e1" "e1 \<le> e0"
    by blast
  have R2: "R = real (p + j) * w" using R(2) by (simp add: algebra_simps)
  have "UnrestrictedFitByPieceWidth d y h w a e False = Some (Inr (real p * w))"
    by (simp add: UnrestrictedFitByPieceWidth_def qf(1) pq)
  moreover have "UnrestrictedFitByPieceWidth d y h w a e True = Some (Inr (real (p + j) * w))"
    using e0 R(1) by (simp add: UnrestrictedFitByPieceWidth_def qf(1) pq R2)
  ultimately show ?thesis using e0 R(3,4) unfolding R2 by blast
qed

lemma fit_half_loop_exit:
  assumes "\<not> y + h \<le> d / 2"
  shows "fit_half_loop d h w a e co y acc lw =
           Some (Inr (if lw \<noteq> 0 then acc @ [(y, 0)] else acc))"
  using assms by (subst fit_half_loop.simps) simp

lemma fit_half_loop_step:
  assumes "y + h \<le> d / 2" "UnrestrictedFitByPieceWidth d y h w a e co = Some (Inr x)"
  shows "fit_half_loop d h w a e co y acc lw =
           fit_half_loop d h w a e co (y + h) (acc @ [(y, x)]) x"
  using assms by (subst fit_half_loop.simps) simp

lemma fit_half_loop_compare:
  fixes d y h w :: real
  assumes valid: "0 < d" "0 < h" "0 < w"
    and y: "0 \<le> y"
    and inv: "lw0 \<noteq> 0 \<longrightarrow> lw1 \<noteq> 0" "lw1 \<noteq> 0 \<longrightarrow> y \<le> d / 2"
  shows "\<exists>R0 R1 e0 e1.
           fit_half_loop d h w a e False y acc0 lw0 = Some (Inr (acc0 @ R0)) \<and>
           fit_half_loop d h w a e True y acc1 lw1 = Some (Inr (acc1 @ R1)) \<and>
           ComputeError d R0 h = Inr e0 \<and> ComputeError d R1 h = Inr e1 \<and>
           ((R0 \<noteq> [] \<and> d / 2 < fst (last R0) + h) \<or> \<not> (R1 \<noteq> [] \<and> d / 2 < fst (last R1) + h)
              \<longrightarrow> e1 \<le> e0)"
  using y inv
proof (induction "nat \<lceil>(d / 2 - y) / h\<rceil>" arbitrary: y acc0 acc1 lw0 lw1 rule: less_induct)
  case less
  show ?case
  proof (cases "y + h \<le> d / 2")
    case False
    let ?R0 = "if lw0 \<noteq> 0 then [(y, 0::real)] else []"
    let ?R1 = "if lw1 \<noteq> 0 then [(y, 0::real)] else []"
    have r0: "fit_half_loop d h w a e False y acc0 lw0 = Some (Inr (acc0 @ ?R0))"
      using fit_half_loop_exit[OF False] by simp
    have r1: "fit_half_loop d h w a e True y acc1 lw1 = Some (Inr (acc1 @ ?R1))"
      using fit_half_loop_exit[OF False] by simp
    have cap: "lw1 \<noteq> 0 \<Longrightarrow> \<exists>v. ComputeSliceError d y h 0 = Inr v"
      using in_disk[OF valid(1) less.prems(1)] less.prems(3) valid(1)
      by (simp add: ComputeSliceError_zero_width)
    show ?thesis
    proof (cases "lw1 \<noteq> 0")
      case True
      then obtain v where v: "ComputeSliceError d y h 0 = Inr v" using cap by blast
      show ?thesis
      proof (cases "lw0 \<noteq> 0")
        case lw0: True
        have "ComputeError d ?R0 h = Inr (v + 0)" "ComputeError d ?R1 h = Inr (v + 0)"
          using v True lw0 by simp_all
        then show ?thesis using r0 r1 by (metis order_refl)
      next
        case lw0: False
        have "ComputeError d ?R0 h = Inr 0" "ComputeError d ?R1 h = Inr (v + 0)"
          using v True lw0 by simp_all
        moreover have "\<not> (?R0 \<noteq> [] \<and> d / 2 < fst (last ?R0) + h)" using lw0 by simp
        moreover have "?R1 \<noteq> [] \<and> d / 2 < fst (last ?R1) + h" using True False by simp
        ultimately show ?thesis using r0 r1 by blast
      qed
    next
      case lw1: False
      then have lw0: "\<not> lw0 \<noteq> 0" using less.prems(2) by blast
      have "ComputeError d ?R0 h = Inr 0" "ComputeError d ?R1 h = Inr 0"
        using lw0 lw1 by simp_all
      then show ?thesis using r0 r1 by (metis order_refl)
    qed
  next
    case True
    have hh: "0 \<le> h" using valid(2) by simp
    from UnrestrictedFitByPieceWidth_valid[OF valid(1) less.prems(1) hh True valid(3), of a e]
    obtain p j v0 v1 where
      row: "UnrestrictedFitByPieceWidth d y h w a e False = Some (Inr (real p * w))"
           "UnrestrictedFitByPieceWidth d y h w a e True = Some (Inr (real (p + j) * w))"
           "ComputeSliceError d y h (real p * w) = Inr v0"
           "ComputeSliceError d y h (real (p + j) * w) = Inr v1" "v1 \<le> v0"
      by blast
    have "1 / 2 < (d / 2 - y) / h" using True valid(2) by (simp add: field_simps)
    then have "nat \<lceil>(d / 2 - y) / h - 1\<rceil> < nat \<lceil>(d / 2 - y) / h\<rceil>"
      by (rule ceiling_measure_decreases)
    moreover have "(d / 2 - (y + h)) / h = (d / 2 - y) / h - 1"
      using valid(2) by (simp add: field_simps)
    ultimately have m: "nat \<lceil>(d / 2 - (y + h)) / h\<rceil> < nat \<lceil>(d / 2 - y) / h\<rceil>" by simp
    have y': "0 \<le> y + h" using less.prems(1) valid(2) by simp
    have i1: "real p * w \<noteq> 0 \<longrightarrow> real (p + j) * w \<noteq> 0" using valid(3) by auto
    have i2: "real (p + j) * w \<noteq> 0 \<longrightarrow> y + h \<le> d / 2" using True by simp
    from less.hyps[OF m y' i1 i2, of "acc0 @ [(y, real p * w)]" "acc1 @ [(y, real (p + j) * w)]"]
    obtain R0 R1 e0 e1 where
      ih: "fit_half_loop d h w a e False (y + h) (acc0 @ [(y, real p * w)]) (real p * w)
             = Some (Inr ((acc0 @ [(y, real p * w)]) @ R0))"
          "fit_half_loop d h w a e True (y + h) (acc1 @ [(y, real (p + j) * w)]) (real (p + j) * w)
             = Some (Inr ((acc1 @ [(y, real (p + j) * w)]) @ R1))"
          "ComputeError d R0 h = Inr e0" "ComputeError d R1 h = Inr e1"
          "(R0 \<noteq> [] \<and> d / 2 < fst (last R0) + h) \<or> \<not> (R1 \<noteq> [] \<and> d / 2 < fst (last R1) + h)
              \<longrightarrow> e1 \<le> e0"
      by blast
    let ?R0 = "(y, real p * w) # R0"
    let ?R1 = "(y, real (p + j) * w) # R1"
    have r0: "fit_half_loop d h w a e False y acc0 lw0 = Some (Inr (acc0 @ ?R0))"
      using fit_half_loop_step[OF True row(1)] ih(1) by simp
    have r1: "fit_half_loop d h w a e True y acc1 lw1 = Some (Inr (acc1 @ ?R1))"
      using fit_half_loop_step[OF True row(2)] ih(2) by simp
    have c0: "ComputeError d ?R0 h = Inr (v0 + e0)" using row(3) ih(3) by simp
    have c1: "ComputeError d ?R1 h = Inr (v1 + e1)" using row(4) ih(4) by simp
    have s0: "(?R0 \<noteq> [] \<and> d / 2 < fst (last ?R0) + h) \<longleftrightarrow> (R0 \<noteq> [] \<and> d / 2 < fst (last R0) + h)"
      using True by auto
    have s1: "(?R1 \<noteq> [] \<and> d / 2 < fst (last ?R1) + h) \<longleftrightarrow> (R1 \<noteq> [] \<and> d / 2 < fst (last R1) + h)"
      using True by auto
    have "(?R0 \<noteq> [] \<and> d / 2 < fst (last ?R0) + h) \<or> \<not> (?R1 \<noteq> [] \<and> d / 2 < fst (last ?R1) + h)
            \<longrightarrow> v1 + e1 \<le> v0 + e0"
      unfolding s0 s1 using ih(5) row(5) by linarith
    then show ?thesis using r0 r1 c0 c1 by blast
  qed
qed

section \<open>Numeric bounds\<close>

lemma arctan_le_self:
  fixes x :: real
  assumes "0 \<le> x"
  shows "arctan x \<le> x"
proof -
  have "(\<lambda>t. t - arctan t) 0 \<le> (\<lambda>t. t - arctan t) x"
  proof (rule DERIV_nonneg_imp_nondecreasing[OF assms])
    fix t :: real
    assume "0 \<le> t" "t \<le> x"
    have "((\<lambda>t. t - arctan t) has_real_derivative (1 - inverse (1 + t\<^sup>2))) (at t)"
      by (auto intro!: derivative_eq_intros)
    moreover have "inverse (1 + t\<^sup>2) \<le> 1"
      by (rule inverse_le_1_iff[THEN iffD2]) simp
    then have "0 \<le> 1 - inverse (1 + t\<^sup>2)" by simp
    ultimately show "\<exists>y. ((\<lambda>t. t - arctan t) has_real_derivative y) (at t) \<and> 0 \<le> y"
      by blast
  qed
  then show ?thesis by simp
qed

lemma pi_ge_three: "3 \<le> pi"
proof -
  have "sin (pi / 6) \<le> pi / 6" by (rule sin_x_le_x) simp
  then show ?thesis by (simp add: sin_30)
qed

lemma arcsin_three_fifths: "3 / 5 \<le> arcsin (3 / 5)" "arcsin (3 / 5) \<le> 3 / 4"
proof -
  have b: "0 \<le> arcsin (3 / 5 :: real)" by (rule arcsin_nonneg) simp
  have "sin (arcsin (3 / 5 :: real)) \<le> arcsin (3 / 5)" using b by (rule sin_x_le_x)
  then show "3 / 5 \<le> arcsin (3 / 5 :: real)" by simp
  have "sqrt (1 - (3 / 5)\<^sup>2) = sqrt ((4 / 5)\<^sup>2)" by (simp add: power2_eq_square)
  then have s: "sqrt (1 - (3 / 5)\<^sup>2) = 4 / 5" by (simp only: real_sqrt_abs)
  have "arcsin (3 / 5 :: real) = arctan ((3 / 5) / sqrt (1 - (3 / 5)\<^sup>2))"
    by (rule arcsin_arctan) simp_all
  also have "\<dots> = arctan (3 / 4)" by (simp add: s)
  also have "\<dots> \<le> 3 / 4" by (rule arctan_le_self) simp
  finally show "arcsin (3 / 5 :: real) \<le> 3 / 4" .
qed

section \<open>Evaluating the assembler\<close>

lemma UnrestrictedFitHalf_compare:
  fixes d h w vo :: real
  assumes "0 < d" "0 < h" "0 < w" "0 \<le> vo"
  shows "\<exists>R0 R1 e0 e1.
           UnrestrictedFitHalf d h w vo a e False = Some (Inr R0) \<and>
           UnrestrictedFitHalf d h w vo a e True = Some (Inr R1) \<and>
           ComputeError d R0 h = Inr e0 \<and> ComputeError d R1 h = Inr e1 \<and>
           ((R0 \<noteq> [] \<and> d / 2 < fst (last R0) + h) \<or> \<not> (R1 \<noteq> [] \<and> d / 2 < fst (last R1) + h)
              \<longrightarrow> e1 \<le> e0)"
  using fit_half_loop_compare[OF assms, of 0 0 a e "[]" "[]"]
  by (simp add: UnrestrictedFitHalf_def)

lemma py_half_nonneg: "0 < to_float H \<Longrightarrow> 0 \<le> to_float (py_half H)"
  by (cases H) simp_all

lemma quantized_fit_eval:
  fixes uw w :: real
  assumes fit: "UnrestrictedFit d y h = Inr uw" and w: "0 < w"
    and lo: "of_int n * w \<le> uw" and hi: "uw < (of_int n + 1) * w"
    and p: "p = (if a \<and> \<not> (e \<longleftrightarrow> even n) \<and> n \<noteq> 0 then n - 1 else n)"
  shows "quantized_fit d y h w a e = Inr (p, of_int p * w)"
proof -
  have "of_int n \<le> uw / w" "uw / w < of_int n + 1"
    using w lo hi by (simp_all add: pos_le_divide_eq pos_divide_less_eq)
  then have n: "\<lfloor>uw / w\<rfloor> = n" by (rule floor_unique)
  show ?thesis
    unfolding quantized_fit_def fit
    using w
    apply (simp add: py_mod_def py_div_def Let_def n del: of_int_mult)
    apply (auto simp: p algebra_simps even_iff_mod_2_eq_zero)
    done
qed

lemma UnrestrictedFitHalf_empty:
  assumes "\<not> vo + h \<le> d / 2"
  shows "UnrestrictedFitHalf d h w vo a e co = Some (Inr [])"
  using fit_half_loop_exit[OF assms] by (simp add: UnrestrictedFitHalf_def)

lemma FitCircleSplitMiddle_empty:
  assumes "d / 2 < to_float H"
  shows "FitCircleSplitMiddle d H w a e co = Some (Inr ([], 0, 0))"
proof -
  have "\<not> 0 + to_float H \<le> d / 2" using assms by simp
  from UnrestrictedFitHalf_empty[OF this] show ?thesis
    by (simp add: FitCircleSplitMiddle_def)
qed

lemma bind_r_Some_Inr [simp]: "bind_r (Some (Inr x)) f = f x"
  by (simp add: bind_r_def)

lemma bind_r_Some_Inl [simp]: "bind_r (Some (Inl x)) f = Some (Inl x)"
  by (simp add: bind_r_def)

lemma bind_r_None [simp]: "bind_r None f = None"
  by (simp add: bind_r_def)

lemma sqrt_16: "sqrt 16 = 4"
proof -
  have "sqrt ((4::real)\<^sup>2) = 4" by (simp only: real_sqrt_abs abs_numeral)
  then show ?thesis by simp
qed

lemma segmentArea_10_0_3: "segmentArea 10 0 3 = 25 * arcsin (3 / 5) + 12"
  by (simp add: segmentArea_def Let_def sqrt_16 arccos_arcsin_eq)

lemma cap_10_3: "ComputeSliceError 10 3 3 0 = Inr (25 * arccos (3 / 5) - 12)"
  by (simp add: ComputeSliceError_zero_width sqrt_16)

lemma cap_10_0: "ComputeSliceError 10 0 3 0 = Inr (25 * pi / 2)"
  by (simp add: ComputeSliceError_zero_width)

lemma row_10_plain: "UnrestrictedFitByPieceWidth 10 0 3 21 False False False = Some (Inr 0)"
proof -
  have "quantized_fit 10 0 3 21 False False = Inr (0, of_int 0 * 21)"
    by (rule quantized_fit_valid(1)[where p0 = 0]) (simp_all add: power2_eq_square sqrt_16)
  then show ?thesis by (simp add: UnrestrictedFitByPieceWidth_def)
qed

lemma row_10_outside: "UnrestrictedFitByPieceWidth 10 0 3 21 False False True = Some (Inr 21)"
proof -
  have q: "quantized_fit 10 0 3 21 False False = Inr (0, of_int 0 * 21)"
    by (rule quantized_fit_valid(1)[where p0 = 0]) (simp_all add: power2_eq_square sqrt_16)
  have e21: "ComputeSliceError 10 0 3 21 = Inr (63 - segmentArea 10 0 3)"
    using ComputeSliceError_width[of 10 0 3 21] arcsin_three_fifths
    by (simp add: segmentArea_10_0_3)
  have e42: "ComputeSliceError 10 0 3 42 = Inr (126 - segmentArea 10 0 3)"
    using ComputeSliceError_width[of 10 0 3 42] arcsin_three_fifths
    by (simp add: segmentArea_10_0_3)
  have l2: "outside_loop 10 0 3 21 False False 21 (63 - segmentArea 10 0 3) False = Some (Inr 21)"
    by (subst outside_loop.simps) (simp add: e42)
  have "63 - segmentArea 10 0 3 < 25 * pi / 2"
    using arcsin_three_fifths pi_ge_three by (simp add: segmentArea_10_0_3)
  then have "ConsiderOutsidePieces 10 0 3 21 (25 * pi / 2) 0 False False = Some (Inr 21)"
    unfolding ConsiderOutsidePieces_def
    by (subst outside_loop.simps) (simp add: e21 l2)
  then show ?thesis by (simp add: UnrestrictedFitByPieceWidth_def q cap_10_0)
qed

lemma arcsin_ge_self:
  fixes x :: real
  assumes "0 \<le> x" "x \<le> 1"
  shows "x \<le> arcsin x"
proof -
  have "0 \<le> arcsin x" using assms by (intro arcsin_nonneg) simp
  then have "sin (arcsin x) \<le> arcsin x" by (rule sin_x_le_x)
  then show ?thesis using assms by simp
qed

lemma sqrt_between:
  fixes x lo hi :: real
  assumes "0 \<le> lo" "lo\<^sup>2 \<le> x" "0 < hi" "x < hi\<^sup>2"
  shows "lo \<le> sqrt x" "sqrt x < hi"
proof -
  show "lo \<le> sqrt x" using assms(2) by (rule real_le_rsqrt)
  show "sqrt x < hi" using assms(3,4) by (intro real_less_lsqrt) simp_all
qed

lemma min_enumerate_4:
  "min_enumerate [a, b, c, d] = Inr r \<Longrightarrow>
     snd r = Min {a, b, c, d} \<and> fst r < 4 \<and> [a, b, c, d] ! fst r = snd r"
  by (auto simp: min_enumerate_def enumerate_eq_zip min_def split: if_splits)

lemma min_enumerate_2:
  "min_enumerate [a, b] = Inr r \<Longrightarrow>
     snd r = Min {a, b} \<and> fst r < 2 \<and> [a, b] ! fst r = snd r"
  by (auto simp: min_enumerate_def enumerate_eq_zip min_def split: if_splits)

lemma FitCircle_3:
  "FitCircle 3 (PyInt 2) 5 False =
     Some (Inr \<lparr>best_aligned = (0, 0), best_unaligned = (0, 0),
                widths_middles_errors_align =
                  [(([], 0, 0), False), (([], 0, 2 * \<bar>segmentArea 3 0 1 - 5\<bar>), False),
                   (([], 0, 0), True), (([], 0, 2 * \<bar>segmentArea 3 0 1 - 5\<bar>), True),
                   (([], 0, 0), True), (([], 0, 2 * \<bar>segmentArea 3 0 1 - 5\<bar>), True)]\<rparr>)"
proof -
  have split: "FitCircleSplitMiddle 3 (PyInt 2) 5 a e False = Some (Inr ([], 0, 0))" for a e
    by (rule FitCircleSplitMiddle_empty) simp
  have rows: "UnrestrictedFitHalf 3 2 5 1 a e False = Some (Inr [])" for a e
    by (rule UnrestrictedFitHalf_empty) simp
  have s: "0 \<le> sqrt (5 / 4)" "sqrt (5 / 4) < 5 / 2"
    by (rule sqrt_between[of 0 "5 / 4" "5 / 2"]; simp add: power2_eq_square)+
  have fit: "UnrestrictedFit 3 0 1 = Inr (2 * sqrt (5 / 4))"
    by (simp add: UnrestrictedFit_def py_sqrt_def power2_eq_square)
  have "quantized_fit 3 0 1 5 a e = Inr (0, of_int 0 * 5)" for a e
    by (rule quantized_fit_eval[OF fit, where n = 0]) (use s in simp_all)
  then have mid: "UnrestrictedFitByPieceWidth 3 0 1 5 a e False = Some (Inr 0)" for a e
    by (simp add: UnrestrictedFitByPieceWidth_def)
  have m5: "ComputeSliceError 3 0 1 5 = Inr \<bar>segmentArea 3 0 1 - 5 * 1\<bar>"
    by (rule ComputeSliceError_width) simp_all
  have off: "FitCircleOffsetMiddleHalfPiece 3 (PyInt 2) 5 a e False =
               Some (Inr ([], 0, 2 * \<bar>segmentArea 3 0 1 - 5\<bar>))" for a e
    using rows mid m5 by (simp add: FitCircleOffsetMiddleHalfPiece_def)
  show ?thesis
    by (simp add: FitCircle_def split off min_enumerate_def enumerate_eq_zip Let_def)
qed

lemma slice_error_m20:
  assumes "x \<noteq> 0"
  shows "ComputeSliceError (- 20) 0 1 x = Inr \<bar>segmentArea (- 20) 0 1 - x\<bar>"
  using assms
  by (simp add: ComputeSliceError_def segmentArea_def py_div_def py_acos_def py_sqrt_def Let_def)

lemma segmentArea_m20: "segmentArea (- 20) 0 1 < 10"
proof -
  have "arccos 0 \<le> arccos (- (1 / 10) :: real)"
    by (rule arccos_le_arccos) simp_all
  then have "pi / 2 \<le> arccos (- (1 / 10) :: real)" by simp
  moreover have "sqrt 99 < 10"
    by (rule sqrt_between(2)[of 0 99 10]) (simp_all add: power2_eq_square)
  ultimately show ?thesis by (simp add: segmentArea_def Let_def)
qed

lemma outside_stop:
  assumes "ComputeSliceError d y h (c + (if a then 2 * w else w)) = Inr v" "\<not> v < best" "c \<noteq> 0"
  shows "ConsiderOutsidePieces d y h w best c a e = Some (Inr c)"
  unfolding ConsiderOutsidePieces_def
  using assms by (subst outside_loop.simps) (simp add: Let_def)

lemma middle_m20:
  "UnrestrictedFitByPieceWidth (- 20) 0 1 5 False False True = Some (Inr 15)"
  "UnrestrictedFitByPieceWidth (- 20) 0 1 5 True True True = Some (Inr 10)"
  "UnrestrictedFitByPieceWidth (- 20) 0 1 5 True False True = Some (Inr 15)"
proof -
  have s: "15 / 2 \<le> sqrt 99" "sqrt 99 < 10"
    by (rule sqrt_between[of "15 / 2" 99 10]; simp add: power2_eq_square)+
  have fit: "UnrestrictedFit (- 20) 0 1 = Inr (2 * sqrt 99)"
    by (simp add: UnrestrictedFit_def py_sqrt_def power2_eq_square)
  have q1: "quantized_fit (- 20) 0 1 5 False False = Inr (3, of_int 3 * 5)"
    by (rule quantized_fit_eval[OF fit, where n = 3]) (use s in simp_all)
  have q2: "quantized_fit (- 20) 0 1 5 True True = Inr (2, of_int 2 * 5)"
    by (rule quantized_fit_eval[OF fit, where n = 3]) (use s in simp_all)
  have q3: "quantized_fit (- 20) 0 1 5 True False = Inr (3, of_int 3 * 5)"
    by (rule quantized_fit_eval[OF fit, where n = 3]) (use s in simp_all)
  note B = segmentArea_m20
  have c1: "ConsiderOutsidePieces (- 20) 0 1 5 \<bar>segmentArea (- 20) 0 1 - 15\<bar> 15 False False
              = Some (Inr 15)"
    by (rule outside_stop[where v = "\<bar>segmentArea (- 20) 0 1 - 20\<bar>"])
       (use B in \<open>simp_all add: slice_error_m20\<close>)
  have c2: "ConsiderOutsidePieces (- 20) 0 1 5 \<bar>segmentArea (- 20) 0 1 - 10\<bar> 10 True True
              = Some (Inr 10)"
    by (rule outside_stop[where v = "\<bar>segmentArea (- 20) 0 1 - 20\<bar>"])
       (use B in \<open>simp_all add: slice_error_m20\<close>)
  have c3: "ConsiderOutsidePieces (- 20) 0 1 5 \<bar>segmentArea (- 20) 0 1 - 15\<bar> 15 True False
              = Some (Inr 15)"
    by (rule outside_stop[where v = "\<bar>segmentArea (- 20) 0 1 - 25\<bar>"])
       (use B in \<open>simp_all add: slice_error_m20\<close>)
  show "UnrestrictedFitByPieceWidth (- 20) 0 1 5 False False True = Some (Inr 15)"
    by (simp add: UnrestrictedFitByPieceWidth_def q1 slice_error_m20 c1)
  show "UnrestrictedFitByPieceWidth (- 20) 0 1 5 True True True = Some (Inr 10)"
    by (simp add: UnrestrictedFitByPieceWidth_def q2 slice_error_m20 c2)
  show "UnrestrictedFitByPieceWidth (- 20) 0 1 5 True False True = Some (Inr 15)"
    by (simp add: UnrestrictedFitByPieceWidth_def q3 slice_error_m20 c3)
qed

section \<open>The claims\<close>

text \<open>
  Claim C1, at the input diameter \<open>12\<close>, \<^verbatim>\<open>piece_height = 2\<close>, \<^verbatim>\<open>piece_width = 5\<close>,
  unaligned, circumscribed. The offset strategy returns the rows
  \<open>(1, 10), (3, 5), (5, 0)\<close> and the middle width \<open>10\<close>; its error is twice the rows' total
  plus twice the slice error of the middle band at width \<open>5\<close>, the pip width, which is not
  twice the total plus twice the slice error at the middle width \<open>10\<close> that the claim
  states.
\<close>

theorem offset_error_uses_pip_width:
  "\<exists>T. ComputeError 12 [(1, 10), (3, 5), (5, 0)] 2 = Inr T \<and>
     FitCircleOffsetMiddleHalfPiece 12 (PyInt 2) 5 False False False =
       Some (Inr ([(1, 10), (3, 5), (5, 0)], 10, 2 * T + 2 * \<bar>segmentArea 12 0 1 - 5\<bar>)) \<and>
     ComputeSliceError 12 0 1 10 = Inr \<bar>segmentArea 12 0 1 - 10\<bar> \<and>
     2 * T + 2 * \<bar>segmentArea 12 0 1 - 5\<bar> \<noteq> 2 * T + 2 * \<bar>segmentArea 12 0 1 - 10\<bar>"
proof -
  have s27: "5 \<le> sqrt 27" "sqrt 27 < 15 / 2"
    by (rule sqrt_between[of 5 27 "15 / 2"]; simp add: power2_eq_square)+
  have s11: "5 / 2 \<le> sqrt 11" "sqrt 11 < 5"
    by (rule sqrt_between[of "5 / 2" 11 5]; simp add: power2_eq_square)+
  have s35: "5 \<le> sqrt 35" "sqrt 35 < 15 / 2"
    by (rule sqrt_between[of 5 35 "15 / 2"]; simp add: power2_eq_square)+
  have f1: "UnrestrictedFit 12 1 2 = Inr (2 * sqrt 27)"
    by (simp add: UnrestrictedFit_def py_sqrt_def power2_eq_square)
  have f3: "UnrestrictedFit 12 3 2 = Inr (2 * sqrt 11)"
    by (simp add: UnrestrictedFit_def py_sqrt_def power2_eq_square)
  have f0: "UnrestrictedFit 12 0 1 = Inr (2 * sqrt 35)"
    by (simp add: UnrestrictedFit_def py_sqrt_def power2_eq_square)
  have "quantized_fit 12 1 2 5 False False = Inr (2, of_int 2 * 5)"
    by (rule quantized_fit_eval[OF f1, where n = 2]) (use s27 in simp_all)
  then have r1: "UnrestrictedFitByPieceWidth 12 1 2 5 False False False = Some (Inr 10)"
    by (simp add: UnrestrictedFitByPieceWidth_def)
  have "quantized_fit 12 3 2 5 False False = Inr (1, of_int 1 * 5)"
    by (rule quantized_fit_eval[OF f3, where n = 1]) (use s11 in simp_all)
  then have r3: "UnrestrictedFitByPieceWidth 12 3 2 5 False False False = Some (Inr 5)"
    by (simp add: UnrestrictedFitByPieceWidth_def)
  have "quantized_fit 12 0 1 5 False False = Inr (2, of_int 2 * 5)"
    by (rule quantized_fit_eval[OF f0, where n = 2]) (use s35 in simp_all)
  then have r0: "UnrestrictedFitByPieceWidth 12 0 1 5 False False False = Some (Inr 10)"
    by (simp add: UnrestrictedFitByPieceWidth_def)
  have rows: "UnrestrictedFitHalf 12 2 5 1 False False False = Some (Inr [(1, 10), (3, 5), (5, 0)])"
    unfolding UnrestrictedFitHalf_def
    apply (subst fit_half_loop_step[OF _ r1], simp)
    apply (subst fit_half_loop_step[where x = 5])
    using r3 apply simp_all
    apply (simp add: fit_half_loop_exit)
    done
  have e1: "ComputeSliceError 12 1 2 10 = Inr \<bar>segmentArea 12 1 2 - 10 * 2\<bar>"
    by (rule ComputeSliceError_width) simp_all
  have e3: "ComputeSliceError 12 3 2 5 = Inr \<bar>segmentArea 12 3 2 - 5 * 2\<bar>"
    by (rule ComputeSliceError_width) simp_all
  have e5: "ComputeSliceError 12 5 2 0 = Inr (arccos (5 / 6) * 36 - 5 * sqrt 11)"
    by (simp add: ComputeSliceError_zero_width)
  define T where "T = \<bar>segmentArea 12 1 2 - 10 * 2\<bar> + (\<bar>segmentArea 12 3 2 - 5 * 2\<bar> +
                        (arccos (5 / 6) * 36 - 5 * sqrt 11 + 0))"
  have T: "ComputeError 12 [(1, 10), (3, 5), (5, 0)] 2 = Inr T"
    by (simp add: e1 e3 e5 T_def)
  have m5: "ComputeSliceError 12 0 1 5 = Inr \<bar>segmentArea 12 0 1 - 5 * 1\<bar>"
    by (rule ComputeSliceError_width) simp_all
  have m10: "ComputeSliceError 12 0 1 10 = Inr \<bar>segmentArea 12 0 1 - 10 * 1\<bar>"
    by (rule ComputeSliceError_width) simp_all
  have code: "FitCircleOffsetMiddleHalfPiece 12 (PyInt 2) 5 False False False =
       Some (Inr ([(1, 10), (3, 5), (5, 0)], 10, 2 * T + 2 * \<bar>segmentArea 12 0 1 - 5\<bar>))"
    using rows r0 T m5 by (simp add: FitCircleOffsetMiddleHalfPiece_def)
  have "1 / 6 \<le> arcsin (1 / 6 :: real)" by (rule arcsin_ge_self) simp_all
  then have "11 \<le> segmentArea 12 0 1"
    using s35 by (simp add: segmentArea_def Let_def arccos_arcsin_eq)
  then have "\<bar>segmentArea 12 0 1 - 5\<bar> \<noteq> \<bar>segmentArea 12 0 1 - 10\<bar>" by simp
  then show ?thesis using T code m10 by (intro exI[of _ T]) simp
qed

text \<open>
  Claim C2, as amended. With width \<open>0\<close> and \<open>0 \<le> y\<close>, \<open>0 \<le> h\<close>, \<open>y + h \<le> radius\<close>,
  \<^verbatim>\<open>ComputeSliceError\<close> returns the area expression of the whole cap above \<open>y\<close>, that is
  \<open>segmentArea(y, radius - y)\<close>, whatever \<open>h\<close> is. The cap is the band between \<open>y\<close> and
  \<open>y + h\<close> plus the cap above \<open>y + h\<close>, so it is the band only when \<open>y + h = radius\<close>.
\<close>

theorem zero_width_error_is_cap:
  assumes "0 < d" "0 \<le> y" "0 \<le> h" "y + h \<le> d / 2"
  shows "ComputeSliceError d y h 0 = Inr (segmentArea d y (d / 2 - y)) \<and>
         segmentArea d y (d / 2 - y) = segmentArea d y h + segmentArea d (y + h) (d / 2 - (y + h))"
  using ComputeSliceError_in_disk[OF assms, of 0] segmentArea_cap[OF assms(1), of y]
    segmentArea_split[OF assms(1), of y h] by simp

theorem zero_width_error_is_cap_witness:
  "ComputeSliceError 20 4 2 0 = Inr (segmentArea 20 4 (20 / 2 - 4))"
  using zero_width_error_is_cap[of 20 4 2] by simp

text \<open>
  Claim C2 as stated fails: for diameter \<open>2\<close>, \<open>y = 0\<close> and \<open>h = 1/2\<close> the slice error
  at width \<open>0\<close> is \<open>pi / 2\<close>, the band is \<open>pi / 6 + sqrt 3 / 4\<close>.
\<close>

theorem zero_width_error_is_not_band:
  "ComputeSliceError 2 0 (1 / 2) 0 \<noteq> Inr (segmentArea 2 0 (1 / 2))"
proof -
  have "sqrt (3 / 4) < sqrt 1" by (subst real_sqrt_less_iff) simp
  then have s: "sqrt 3 / 2 < 1" by (simp add: real_sqrt_divide)
  have "pi / 3 \<noteq> sqrt 3 / 4" using pi_ge_two s by linarith
  then show ?thesis
    by (simp add: ComputeSliceError_zero_width segmentArea_def Let_def real_sqrt_divide)
qed

text \<open>
  Claim C3, at the input diameter \<open>3\<close>, \<^verbatim>\<open>piece_height = 2\<close>. The split-at-equator
  solution has no rows and the total error \<open>0\<close>, while twice \<open>segmentArea(0, 1.5)\<close>, the
  area of the disk, is \<open>9 pi / 4\<close>.
\<close>

theorem empty_rows_error_is_zero:
  "FitCircleSplitMiddle 3 (PyInt 2) 5 a e co = Some (Inr ([], 0, 0)) \<and>
   2 * segmentArea 3 0 (3 / 2) = 9 * pi / 4 \<and> (0::real) < 9 * pi / 4"
proof -
  have "FitCircleSplitMiddle 3 (PyInt 2) 5 a e co = Some (Inr ([], 0, 0))"
    by (rule FitCircleSplitMiddle_empty) simp
  moreover have "2 * segmentArea 3 0 (3 / 2) = 9 * pi / 4"
    by (simp add: segmentArea_def Let_def)
  ultimately show ?thesis by simp
qed

text \<open>
  Claim C4, as amended. Nothing is clamped: \<^verbatim>\<open>UnrestrictedFit\<close> raises the domain error
  whenever \<open>(y + h)\<^sup>2\<close> exceeds the squared radius. For a valid input (positive diameter,
  piece height and pip width, offset not negative) the rows the loop of
  \<^verbatim>\<open>UnrestrictedFitHalf\<close> admits, \<open>0 \<le> y\<close> and \<open>y + h \<le> radius\<close>, give no failure in
  \<^verbatim>\<open>UnrestrictedFit\<close> or \<^verbatim>\<open>ComputeSliceError\<close>, and \<^verbatim>\<open>UnrestrictedFitHalf\<close> and
  \<^verbatim>\<open>ComputeError\<close> on its rows return values.
\<close>

theorem domain_failure_only_outside_guard:
  fixes d h w vo :: real
  assumes "0 < d" "0 < h" "0 < w" "0 \<le> vo"
  shows "(\<forall>y. (d / 2)\<^sup>2 < (y + h)\<^sup>2 \<longrightarrow> UnrestrictedFit d y h = Inl DomainError) \<and>
         (\<forall>y x. 0 \<le> y \<and> y + h \<le> d / 2 \<longrightarrow>
            UnrestrictedFit d y h = Inr (2 * sqrt ((d / 2)\<^sup>2 - (y + h)\<^sup>2)) \<and>
            (\<exists>v. ComputeSliceError d y h x = Inr v)) \<and>
         (\<exists>rows total. UnrestrictedFitHalf d h w vo a e co = Some (Inr rows) \<and>
            ComputeError d rows h = Inr total)"
proof (intro conjI allI impI)
  fix y :: real
  assume "(d / 2)\<^sup>2 < (y + h)\<^sup>2"
  then show "UnrestrictedFit d y h = Inl DomainError"
    by (simp add: UnrestrictedFit_def py_sqrt_def)
next
  fix y x :: real
  assume y: "0 \<le> y \<and> y + h \<le> d / 2"
  have hh: "0 \<le> h" using assms(2) by simp
  show "UnrestrictedFit d y h = Inr (2 * sqrt ((d / 2)\<^sup>2 - (y + h)\<^sup>2))"
    using UnrestrictedFit_in_disk[OF assms(1) _ hh] y by blast
  show "\<exists>v. ComputeSliceError d y h x = Inr v"
    using ComputeSliceError_in_disk[OF assms(1) _ hh] y by blast
next
  from UnrestrictedFitHalf_compare[OF assms, of a e] obtain R0 R1 e0 e1 where
    r: "UnrestrictedFitHalf d h w vo a e False = Some (Inr R0)"
       "UnrestrictedFitHalf d h w vo a e True = Some (Inr R1)"
       "ComputeError d R0 h = Inr e0" "ComputeError d R1 h = Inr e1"
    by blast
  show "\<exists>rows total. UnrestrictedFitHalf d h w vo a e co = Some (Inr rows) \<and>
            ComputeError d rows h = Inr total"
  proof (cases co)
    case True
    then show ?thesis using r(2,4) by (intro exI[of _ R1] exI[of _ e1]) simp
  next
    case False
    then show ?thesis using r(1,3) by (intro exI[of _ R0] exI[of _ e0]) simp
  qed
qed

theorem domain_failure_only_outside_guard_witness:
  "UnrestrictedFit 20 9 2 = Inl DomainError \<and>
   UnrestrictedFit 20 0 2 = Inr (2 * sqrt ((20 / 2)\<^sup>2 - (0 + 2)\<^sup>2)) \<and>
   (\<exists>rows total. UnrestrictedFitHalf 20 2 5 0 True False True = Some (Inr rows) \<and>
      ComputeError 20 rows 2 = Inr total)"
proof -
  have "(0::real) < 20" "(0::real) < 2" "(0::real) < 5" "(0::real) \<le> 0" by simp_all
  note t = domain_failure_only_outside_guard[OF this, of True False True]
  have "UnrestrictedFit 20 9 2 = Inl DomainError"
    using t[THEN conjunct1, THEN spec, of 9] by simp
  moreover have "UnrestrictedFit 20 0 2 = Inr (2 * sqrt ((20 / 2)\<^sup>2 - (0 + 2)\<^sup>2))"
    using t[THEN conjunct2, THEN conjunct1, THEN spec, THEN spec, of 0 0] by simp
  ultimately show ?thesis using t by blast
qed

text \<open>
  Claim C4 as stated fails: \<^verbatim>\<open>UnrestrictedFit\<close> at diameter \<open>3\<close>, \<open>y = 0\<close>, \<open>h = 2\<close>
  raises the domain error instead of returning \<open>0\<close>, and \<^verbatim>\<open>FitCircle\<close> at diameter \<open>1\<close>
  with the default piece height and pip width ends in that error, raised for the middle
  row of the offset strategy.
\<close>

theorem domain_error_is_raised:
  "UnrestrictedFit 3 0 2 = Inl DomainError \<and>
   FitCircle 1 (PyInt 2) 5 True = Some (Inl DomainError)"
proof -
  have a: "UnrestrictedFit 3 0 2 = Inl DomainError"
    by (simp add: UnrestrictedFit_def py_sqrt_def power2_eq_square)
  have s: "FitCircleSplitMiddle 1 (PyInt 2) 5 False False True = Some (Inr ([], 0, 0))"
    by (rule FitCircleSplitMiddle_empty) simp
  have h: "UnrestrictedFitHalf 1 2 5 1 False False True = Some (Inr [])"
    by (rule UnrestrictedFitHalf_empty) simp
  have "UnrestrictedFit 1 0 1 = Inl DomainError"
    by (simp add: UnrestrictedFit_def py_sqrt_def power2_eq_square)
  then have "UnrestrictedFitByPieceWidth 1 0 1 5 False False True = Some (Inl DomainError)"
    by (simp add: UnrestrictedFitByPieceWidth_def quantized_fit_def)
  then have "FitCircleOffsetMiddleHalfPiece 1 (PyInt 2) 5 False False True = Some (Inl DomainError)"
    using h by (simp add: FitCircleOffsetMiddleHalfPiece_def)
  then have "FitCircle 1 (PyInt 2) 5 True = Some (Inl DomainError)"
    using s by (simp add: FitCircle_def)
  then show ?thesis using a by simp
qed

text \<open>
  Claim C5, as amended. \<^verbatim>\<open>main\<close> turns a run down, printing the request for a diameter,
  only when the first argument is missing or empty; any other argument goes through
  \<^verbatim>\<open>float\<close> to \<^verbatim>\<open>FitCircle\<close> with piece height \<open>2\<close>, pip width \<open>5\<close> and
  \<^verbatim>\<open>consider_outside\<close> set, with no check of its sign. For a diameter \<open>d \<le> 0\<close> and a
  positive piece height the split-at-equator strategy returns a solution: no rows, error
  \<open>0\<close>.
\<close>

theorem no_input_validation:
  "(length argv = 1 \<or> (2 \<le> length argv \<and> argv ! 1 = []) \<longrightarrow>
      main py_float argv = Some (Inr Usage)) \<and>
   (2 \<le> length argv \<and> argv ! 1 \<noteq> [] \<and> py_float (argv ! 1) = Inr d \<longrightarrow>
      main py_float argv = bind_r (FitCircle d (PyInt 2) 5 True) (\<lambda>r. Some (Inr (Ran r)))) \<and>
   (d' \<le> 0 \<and> 0 < to_float H \<longrightarrow>
      FitCircleSplitMiddle d' H w a e co = Some (Inr ([], 0, 0)))"
proof (intro conjI impI)
  assume "length argv = 1 \<or> (2 \<le> length argv \<and> argv ! 1 = [])"
  then show "main py_float argv = Some (Inr Usage)"
    by (auto simp: main_def split: list.splits)
next
  assume "2 \<le> length argv \<and> argv ! 1 \<noteq> [] \<and> py_float (argv ! 1) = Inr d"
  then show "main py_float argv = bind_r (FitCircle d (PyInt 2) 5 True) (\<lambda>r. Some (Inr (Ran r)))"
    by (auto simp: main_def split: list.splits)
next
  assume "d' \<le> 0 \<and> 0 < to_float H"
  then have "d' / 2 < to_float H" by simp
  then show "FitCircleSplitMiddle d' H w a e co = Some (Inr ([], 0, 0))"
    by (rule FitCircleSplitMiddle_empty)
qed

theorem no_input_validation_witness:
  "main (\<lambda>s. Inr (- 20)) [''circle''] = Some (Inr Usage) \<and>
   main (\<lambda>s. Inr (- 20)) [''circle'', ''-20''] =
     bind_r (FitCircle (- 20) (PyInt 2) 5 True) (\<lambda>r. Some (Inr (Ran r))) \<and>
   FitCircleSplitMiddle (- 20) (PyInt 2) 5 False False True = Some (Inr ([], 0, 0))"
proof -
  have "main (\<lambda>s. Inr (- 20)) [''circle''] = Some (Inr Usage)"
    using no_input_validation[of "[''circle'']" "\<lambda>s. Inr (- 20)"] by simp
  moreover have "main (\<lambda>s. Inr (- 20)) [''circle'', ''-20''] =
     bind_r (FitCircle (- 20) (PyInt 2) 5 True) (\<lambda>r. Some (Inr (Ran r)))"
    using no_input_validation[of "[''circle'', ''-20'']" "\<lambda>s. Inr (- 20)" "- 20"] by simp
  moreover have "FitCircleSplitMiddle (- 20) (PyInt 2) 5 False False True = Some (Inr ([], 0, 0))"
    using no_input_validation[of _ _ _ "- 20" "PyInt 2" 5 False False True] by simp
  ultimately show ?thesis by blast
qed

text \<open>
  Claim C5 as stated fails: for diameter \<open>- 20\<close> with the defaults of \<^verbatim>\<open>main\<close>,
  \<^verbatim>\<open>FitCircle\<close> returns its six solutions and the two minima.
\<close>

theorem negative_diameter_gives_solutions:
  "FitCircle (- 20) (PyInt 2) 5 True =
     Some (Inr \<lparr>best_aligned = (0, 0), best_unaligned = (0, 0),
                widths_middles_errors_align =
                  [(([], 0, 0), False),
                   (([], 15, 2 * \<bar>segmentArea (- 20) 0 1 - 5\<bar>), False),
                   (([], 0, 0), True),
                   (([], 10, 2 * \<bar>segmentArea (- 20) 0 1 - 5\<bar>), True),
                   (([], 0, 0), True),
                   (([], 15, 2 * \<bar>segmentArea (- 20) 0 1 - 5\<bar>), True)]\<rparr>)"
proof -
  have split: "FitCircleSplitMiddle (- 20) (PyInt 2) 5 a e True = Some (Inr ([], 0, 0))" for a e
    by (rule FitCircleSplitMiddle_empty) simp
  have rows: "UnrestrictedFitHalf (- 20) 2 5 1 a e True = Some (Inr [])" for a e
    by (rule UnrestrictedFitHalf_empty) simp
  have off:
    "FitCircleOffsetMiddleHalfPiece (- 20) (PyInt 2) 5 False False True =
       Some (Inr ([], 15, 2 * \<bar>segmentArea (- 20) 0 1 - 5\<bar>))"
    "FitCircleOffsetMiddleHalfPiece (- 20) (PyInt 2) 5 True True True =
       Some (Inr ([], 10, 2 * \<bar>segmentArea (- 20) 0 1 - 5\<bar>))"
    "FitCircleOffsetMiddleHalfPiece (- 20) (PyInt 2) 5 True False True =
       Some (Inr ([], 15, 2 * \<bar>segmentArea (- 20) 0 1 - 5\<bar>))"
    using rows middle_m20 by (simp_all add: FitCircleOffsetMiddleHalfPiece_def slice_error_m20)
  show ?thesis
    by (simp add: FitCircle_def split off min_enumerate_def enumerate_eq_zip Let_def)
qed

text \<open>
  Claim C6, as amended. For a valid input, every row inside the disk gets with
  \<^verbatim>\<open>consider_outside\<close> a width at least as large and a slice error at most as large as
  without it. Both runs of a strategy return (the offset strategy when the middle row's
  height is at most the radius), and the total error with \<^verbatim>\<open>consider_outside\<close> is at
  most the total error without it whenever the rows without it end in the sentinel row,
  or the rows with it do not: that is, unless the extension is what brings the sentinel
  row in.
\<close>

theorem outside_total_error_le_when_sentinel_agrees:
  fixes d w :: real
  assumes "0 < d" "0 < to_float H" "0 < w"
  shows "(\<forall>y. 0 \<le> y \<and> y + to_float H \<le> d / 2 \<longrightarrow>
            (\<exists>w0 w1 e0 e1.
               UnrestrictedFitByPieceWidth d y (to_float H) w a e False = Some (Inr w0) \<and>
               UnrestrictedFitByPieceWidth d y (to_float H) w a e True = Some (Inr w1) \<and>
               ComputeSliceError d y (to_float H) w0 = Inr e0 \<and>
               ComputeSliceError d y (to_float H) w1 = Inr e1 \<and> w0 \<le> w1 \<and> e1 \<le> e0)) \<and>
         (\<exists>R0 R1 E0 E1.
            FitCircleSplitMiddle d H w a e False = Some (Inr (R0, 0, E0)) \<and>
            FitCircleSplitMiddle d H w a e True = Some (Inr (R1, 0, E1)) \<and>
            ((R0 \<noteq> [] \<and> d / 2 < fst (last R0) + to_float H) \<or>
             \<not> (R1 \<noteq> [] \<and> d / 2 < fst (last R1) + to_float H) \<longrightarrow> E1 \<le> E0)) \<and>
         (to_float (py_half H) \<le> d / 2 \<longrightarrow>
          (\<exists>R0 R1 m0 m1 E0 E1.
            FitCircleOffsetMiddleHalfPiece d H w a e False = Some (Inr (R0, m0, E0)) \<and>
            FitCircleOffsetMiddleHalfPiece d H w a e True = Some (Inr (R1, m1, E1)) \<and>
            ((R0 \<noteq> [] \<and> d / 2 < fst (last R0) + to_float H) \<or>
             \<not> (R1 \<noteq> [] \<and> d / 2 < fst (last R1) + to_float H) \<longrightarrow> E1 \<le> E0)))"
proof (intro conjI impI allI)
  fix y :: real
  assume y: "0 \<le> y \<and> y + to_float H \<le> d / 2"
  have hh: "0 \<le> to_float H" using assms(2) by simp
  from y have y0: "0 \<le> y" and y1: "y + to_float H \<le> d / 2" by simp_all
  from UnrestrictedFitByPieceWidth_valid[OF assms(1) y0 hh y1 assms(3), of a e]
  obtain p j e0 e1 where
    row: "UnrestrictedFitByPieceWidth d y (to_float H) w a e False = Some (Inr (real p * w))"
         "UnrestrictedFitByPieceWidth d y (to_float H) w a e True = Some (Inr (real (p + j) * w))"
         "ComputeSliceError d y (to_float H) (real p * w) = Inr e0"
         "ComputeSliceError d y (to_float H) (real (p + j) * w) = Inr e1" "e1 \<le> e0"
    by blast
  have "real p * w \<le> real (p + j) * w" using assms(3) by simp
  then show "\<exists>w0 w1 e0 e1.
               UnrestrictedFitByPieceWidth d y (to_float H) w a e False = Some (Inr w0) \<and>
               UnrestrictedFitByPieceWidth d y (to_float H) w a e True = Some (Inr w1) \<and>
               ComputeSliceError d y (to_float H) w0 = Inr e0 \<and>
               ComputeSliceError d y (to_float H) w1 = Inr e1 \<and> w0 \<le> w1 \<and> e1 \<le> e0"
    using row by blast
next
  from UnrestrictedFitHalf_compare[OF assms, of 0 a e] obtain R0 R1 e0 e1 where
    r: "UnrestrictedFitHalf d (to_float H) w 0 a e False = Some (Inr R0)"
       "UnrestrictedFitHalf d (to_float H) w 0 a e True = Some (Inr R1)"
       "ComputeError d R0 (to_float H) = Inr e0" "ComputeError d R1 (to_float H) = Inr e1"
       "(R0 \<noteq> [] \<and> d / 2 < fst (last R0) + to_float H) \<or>
        \<not> (R1 \<noteq> [] \<and> d / 2 < fst (last R1) + to_float H) \<longrightarrow> e1 \<le> e0"
    by auto
  have "FitCircleSplitMiddle d H w a e False = Some (Inr (R0, 0, 2 * e0))"
       "FitCircleSplitMiddle d H w a e True = Some (Inr (R1, 0, 2 * e1))"
    using r(1-4) by (simp_all add: FitCircleSplitMiddle_def)
  moreover have "(R0 \<noteq> [] \<and> d / 2 < fst (last R0) + to_float H) \<or>
        \<not> (R1 \<noteq> [] \<and> d / 2 < fst (last R1) + to_float H) \<longrightarrow> 2 * e1 \<le> 2 * e0"
    using r(5) by auto
  ultimately show "\<exists>R0 R1 E0 E1.
            FitCircleSplitMiddle d H w a e False = Some (Inr (R0, 0, E0)) \<and>
            FitCircleSplitMiddle d H w a e True = Some (Inr (R1, 0, E1)) \<and>
            ((R0 \<noteq> [] \<and> d / 2 < fst (last R0) + to_float H) \<or>
             \<not> (R1 \<noteq> [] \<and> d / 2 < fst (last R1) + to_float H) \<longrightarrow> E1 \<le> E0)"
    by blast
next
  assume half: "to_float (py_half H) \<le> d / 2"
  have h0: "0 \<le> to_float (py_half H)" using assms(2) by (rule py_half_nonneg)
  from UnrestrictedFitHalf_compare[OF assms h0, of a e] obtain R0 R1 e0 e1 where
    r: "UnrestrictedFitHalf d (to_float H) w (to_float (py_half H)) a e False = Some (Inr R0)"
       "UnrestrictedFitHalf d (to_float H) w (to_float (py_half H)) a e True = Some (Inr R1)"
       "ComputeError d R0 (to_float H) = Inr e0" "ComputeError d R1 (to_float H) = Inr e1"
       "(R0 \<noteq> [] \<and> d / 2 < fst (last R0) + to_float H) \<or>
        \<not> (R1 \<noteq> [] \<and> d / 2 < fst (last R1) + to_float H) \<longrightarrow> e1 \<le> e0"
    by auto
  have mid: "0 + to_float (py_half H) \<le> d / 2" using half by simp
  from UnrestrictedFitByPieceWidth_valid[OF assms(1) order_refl h0 mid assms(3), of a e]
  obtain p j where
    m: "UnrestrictedFitByPieceWidth d 0 (to_float (py_half H)) w a e False = Some (Inr (real p * w))"
       "UnrestrictedFitByPieceWidth d 0 (to_float (py_half H)) w a e True = Some (Inr (real (p + j) * w))"
    by blast
  obtain v where v: "ComputeSliceError d 0 (to_float (py_half H)) w = Inr v"
    using ComputeSliceError_in_disk[OF assms(1) order_refl h0 mid] by blast
  have "FitCircleOffsetMiddleHalfPiece d H w a e False = Some (Inr (R0, real p * w, 2 * e0 + 2 * v))"
       "FitCircleOffsetMiddleHalfPiece d H w a e True = Some (Inr (R1, real (p + j) * w, 2 * e1 + 2 * v))"
    using r(1-4) m v by (simp_all add: FitCircleOffsetMiddleHalfPiece_def)
  moreover have "(R0 \<noteq> [] \<and> d / 2 < fst (last R0) + to_float H) \<or>
        \<not> (R1 \<noteq> [] \<and> d / 2 < fst (last R1) + to_float H) \<longrightarrow> 2 * e1 + 2 * v \<le> 2 * e0 + 2 * v"
    using r(5) by auto
  ultimately show "\<exists>R0 R1 m0 m1 E0 E1.
            FitCircleOffsetMiddleHalfPiece d H w a e False = Some (Inr (R0, m0, E0)) \<and>
            FitCircleOffsetMiddleHalfPiece d H w a e True = Some (Inr (R1, m1, E1)) \<and>
            ((R0 \<noteq> [] \<and> d / 2 < fst (last R0) + to_float H) \<or>
             \<not> (R1 \<noteq> [] \<and> d / 2 < fst (last R1) + to_float H) \<longrightarrow> E1 \<le> E0)"
    by blast
qed

theorem outside_total_error_le_when_sentinel_agrees_witness:
  "\<exists>R1 E0 E1.
     FitCircleSplitMiddle 10 (PyInt 3) 1 False False False = Some (Inr ([(0, 8), (3, 0)], 0, E0)) \<and>
     FitCircleSplitMiddle 10 (PyInt 3) 1 False False True = Some (Inr (R1, 0, E1)) \<and> E1 \<le> E0"
proof -
  have fit: "UnrestrictedFit 10 0 3 = Inr 8"
    by (simp add: UnrestrictedFit_def py_sqrt_def power2_eq_square sqrt_16)
  have "quantized_fit 10 0 3 1 False False = Inr (8, of_int 8 * 1)"
    by (rule quantized_fit_eval[OF fit, where n = 8]) simp_all
  then have row: "UnrestrictedFitByPieceWidth 10 0 3 1 False False False = Some (Inr 8)"
    by (simp add: UnrestrictedFitByPieceWidth_def)
  have rows: "UnrestrictedFitHalf 10 3 1 0 False False False = Some (Inr [(0, 8), (3, 0)])"
    unfolding UnrestrictedFitHalf_def
    by (subst fit_half_loop_step[OF _ row]) (simp_all add: fit_half_loop_exit)
  from outside_total_error_le_when_sentinel_agrees[of 10 "PyInt 3" 1 False False] obtain R0 R1 E0 E1 where
    r: "FitCircleSplitMiddle 10 (PyInt 3) 1 False False False = Some (Inr (R0, 0, E0))"
       "FitCircleSplitMiddle 10 (PyInt 3) 1 False False True = Some (Inr (R1, 0, E1))"
       "(R0 \<noteq> [] \<and> 10 / 2 < fst (last R0) + to_float (PyInt 3)) \<or>
        \<not> (R1 \<noteq> [] \<and> 10 / 2 < fst (last R1) + to_float (PyInt 3)) \<longrightarrow> E1 \<le> E0"
    by auto
  have "R0 = [(0, 8), (3, 0)]"
    using r(1) rows by (auto simp: FitCircleSplitMiddle_def split: sum.splits)
  then show ?thesis using r by auto
qed

text \<open>
  Claim C6 as stated fails: for diameter \<open>10\<close>, \<^verbatim>\<open>piece_height = 3\<close>,
  \<^verbatim>\<open>piece_width = 21\<close>, unaligned, split at the equator, the total error is \<open>25 pi\<close>
  without \<^verbatim>\<open>consider_outside\<close> (one row of width \<open>0\<close>, no sentinel) and larger with it
  (one row of width \<open>21\<close> and the sentinel row).
\<close>

theorem outside_total_error_can_grow:
  "FitCircleSplitMiddle 10 (PyInt 3) 21 False False False = Some (Inr ([(0, 0)], 0, 25 * pi)) \<and>
   FitCircleSplitMiddle 10 (PyInt 3) 21 False False True =
     Some (Inr ([(0, 21), (3, 0)], 0, 2 * (63 - segmentArea 10 0 3 + (25 * arccos (3 / 5) - 12)))) \<and>
   25 * pi < 2 * (63 - segmentArea 10 0 3 + (25 * arccos (3 / 5) - 12))"
proof -
  have r0: "UnrestrictedFitHalf 10 3 21 0 False False False = Some (Inr [(0, 0)])"
    unfolding UnrestrictedFitHalf_def
    by (subst fit_half_loop_step[OF _ row_10_plain]) (simp_all add: fit_half_loop_exit)
  have r1: "UnrestrictedFitHalf 10 3 21 0 False False True = Some (Inr [(0, 21), (3, 0)])"
    unfolding UnrestrictedFitHalf_def
    by (subst fit_half_loop_step[OF _ row_10_outside]) (simp_all add: fit_half_loop_exit)
  have e21: "ComputeSliceError 10 0 3 21 = Inr (63 - segmentArea 10 0 3)"
    using ComputeSliceError_width[of 10 0 3 21] arcsin_three_fifths
    by (simp add: segmentArea_10_0_3)
  have a: "FitCircleSplitMiddle 10 (PyInt 3) 21 False False False = Some (Inr ([(0, 0)], 0, 25 * pi))"
    by (simp add: FitCircleSplitMiddle_def r0 cap_10_0)
  have b: "FitCircleSplitMiddle 10 (PyInt 3) 21 False False True =
     Some (Inr ([(0, 21), (3, 0)], 0, 2 * (63 - segmentArea 10 0 3 + (25 * arccos (3 / 5) - 12))))"
    by (simp add: FitCircleSplitMiddle_def r1 e21 cap_10_3)
  have c: "25 * pi < 2 * (63 - segmentArea 10 0 3 + (25 * arccos (3 / 5) - 12))"
    using arcsin_three_fifths by (simp add: segmentArea_10_0_3 arccos_arcsin_eq)
  show ?thesis using a b c by blast
qed

text \<open>
  Claim C7. For a row inside the disk (\<open>0 \<le> y\<close>, \<open>0 < h\<close>, \<open>y + h \<le> radius\<close>), a positive
  pip width, a starting width \<open>W \<ge> 0\<close> and its slice error \<open>E\<close>, the search of
  \<^verbatim>\<open>ConsiderOutsidePieces\<close> returns, and what it returns is the \<open>n\<close>-th candidate of the
  specification (seed step, then steady-state steps) for the first \<open>n\<close> such that every
  earlier candidate has a strictly lower slice error than the one before it and candidate
  \<open>n + 1\<close> has not; the returned width is at least \<open>W\<close>.
\<close>

theorem outside_extension_search_trace:
  fixes d y h w W E :: real
  assumes "0 < d" "0 \<le> y" "0 < h" "y + h \<le> d / 2" "0 < w" "0 \<le> W"
    and E: "ComputeSliceError d y h W = Inr E"
  shows "\<exists>n. ConsiderOutsidePieces d y h w E W a e = Some (Inr (candidate_width w a e W n)) \<and>
           (\<forall>k<n. \<exists>e0 e1. ComputeSliceError d y h (candidate_width w a e W k) = Inr e0 \<and>
                     ComputeSliceError d y h (candidate_width w a e W (Suc k)) = Inr e1 \<and>
                     e1 < e0) \<and>
           (\<exists>e0 e1. ComputeSliceError d y h (candidate_width w a e W n) = Inr e0 \<and>
                     ComputeSliceError d y h (candidate_width w a e W (Suc n)) = Inr e1 \<and>
                     \<not> e1 < e0) \<and>
           W \<le> candidate_width w a e W n"
proof -
  have hh: "0 \<le> h" using assms(3) by simp
  note valid = assms(1,2) hh assms(4,5)
  define A where "A = segmentArea d y h"
  define err where "err = (\<lambda>k. if k = 0 then E else \<bar>A - candidate_width w a e W k * h\<bar>)"
  from outside_search_trace[OF valid assms(6) A_def err_def] obtain n where
    n: "ConsiderOutsidePieces d y h w E W a e = Some (Inr (candidate_width w a e W n))"
       "\<forall>k<n. err (Suc k) < err k" "\<not> err (Suc n) < err n"
    by blast
  have se: "ComputeSliceError d y h (candidate_width w a e W k) = Inr (err k)" for k
  proof (cases k)
    case 0
    then show ?thesis using E by (simp add: err_def candidate_width_0)
  next
    case (Suc i)
    have "0 < seed_step w a e W" using assms(5) by (simp add: seed_step_def)
    moreover have "0 \<le> real i * steady_step w a" using assms(5) by (simp add: steady_step_def)
    ultimately have "candidate_width w a e W k \<noteq> 0"
      using assms(6) unfolding Suc candidate_width_Suc by linarith
    from ComputeSliceError_width[OF valid(1-4) this] show ?thesis
      by (simp add: err_def Suc A_def)
  qed
  obtain j :: nat where "candidate_width w a e W n = W + real j * w"
    using candidate_width_multiple by blast
  then have "W \<le> candidate_width w a e W n" using assms(5) by simp
  then show ?thesis using n se by blast
qed

theorem outside_extension_search_trace_witness:
  "\<exists>n. ConsiderOutsidePieces 20 0 2 5 \<bar>segmentArea 20 0 2 - 15 * 2\<bar> 15 True False
          = Some (Inr (candidate_width 5 True False 15 n)) \<and>
        15 \<le> candidate_width 5 True False 15 n"
proof -
  have "ComputeSliceError 20 0 2 15 = Inr \<bar>segmentArea 20 0 2 - 15 * 2\<bar>"
    by (rule ComputeSliceError_width) simp_all
  from outside_extension_search_trace[OF _ _ _ _ _ _ this, of 5 True False] show ?thesis by simp blast
qed

text \<open>
  Claim C8. For a row inside the disk, a positive pip width and alignment enabled: the
  quantised pip count \<open>p0\<close> is the floor of the unrestricted width over the pip width and is
  not negative; after the parity step the pip count is \<open>p0\<close> when its parity is the
  required one (even iff \<^verbatim>\<open>align_even_number\<close>), \<open>p0 - 1\<close> when it is not and \<open>p0\<close> is
  positive, and \<open>0\<close> when \<open>p0\<close> is \<open>0\<close>, with the width that many pip widths; and the row
  width returned, with or without the outside search, is a natural number of pip widths.
\<close>

theorem aligned_width_is_pip_multiple:
  fixes d y h w :: real
  assumes "0 < d" "0 \<le> y" "0 < h" "y + h \<le> d / 2" "0 < w"
  shows "\<exists>uw p0 p (n::nat).
           UnrestrictedFit d y h = Inr uw \<and> p0 = \<lfloor>uw / w\<rfloor> \<and> 0 \<le> p0 \<and>
           quantized_fit d y h w True e = Inr (p, of_int p * w) \<and>
           p = (if even p0 \<longleftrightarrow> e then p0 else if 0 < p0 then p0 - 1 else 0) \<and>
           UnrestrictedFitByPieceWidth d y h w True e co = Some (Inr (real n * w))"
proof -
  have hh: "0 \<le> h" using assms(3) by simp
  note valid = assms(1,2) hh assms(4,5)
  define p0 where "p0 = \<lfloor>2 * sqrt ((d / 2) ^ 2 - (y + h) ^ 2) / w\<rfloor>"
  define p where "p = (if True \<and> \<not> (e \<longleftrightarrow> even p0) \<and> p0 \<noteq> 0 then p0 - 1 else p0)"
  note qf = quantized_fit_valid[OF valid p0_def p_def]
  have pe: "p = (if even p0 \<longleftrightarrow> e then p0 else if 0 < p0 then p0 - 1 else 0)"
    using qf(2) by (auto simp: p_def)
  from UnrestrictedFitByPieceWidth_valid[OF valid, of True e] obtain q j where
    qj: "UnrestrictedFitByPieceWidth d y h w True e False = Some (Inr (real q * w))"
    "UnrestrictedFitByPieceWidth d y h w True e True = Some (Inr (real (q + j) * w))"
    by blast
  have "\<exists>n::nat. UnrestrictedFitByPieceWidth d y h w True e co = Some (Inr (real n * w))"
  proof (cases co)
    case True
    then show ?thesis using qj(2) by (intro exI[of _ "q + j"]) simp
  next
    case False
    then show ?thesis using qj(1) by (intro exI[of _ q]) simp
  qed
  then show ?thesis
    using UnrestrictedFit_in_disk[OF valid(1-4)] p0_def qf(1,2) pe by blast
qed

theorem aligned_width_is_pip_multiple_witness:
  "\<exists>uw p0 p (n::nat).
           UnrestrictedFit 20 0 2 = Inr uw \<and> p0 = \<lfloor>uw / 5\<rfloor> \<and> 0 \<le> p0 \<and>
           quantized_fit 20 0 2 5 True True = Inr (p, of_int p * 5) \<and>
           p = (if even p0 \<longleftrightarrow> True then p0 else if 0 < p0 then p0 - 1 else 0) \<and>
           UnrestrictedFitByPieceWidth 20 0 2 5 True True True = Some (Inr (real n * 5))"
  using aligned_width_is_pip_multiple[of 20 0 2 5 True True] by simp

text \<open>
  Claim C9, as amended. When \<^verbatim>\<open>FitCircle\<close> returns, its list holds the six solutions of
  split-at-equator and offset-with-middle-row, unaligned, aligned even and aligned odd, in
  that order, tagged unaligned for the first two and aligned for the last four; the
  aligned minimum is the least error among the four aligned entries, the unaligned minimum
  the least error among the two unaligned entries, each reported with an index at which it
  is attained in its own class.
\<close>

theorem FitCircle_champions:
  assumes "FitCircle d H w co = Some (Inr r)"
  shows "\<exists>s1 s2 s3 s4 s5 s6.
           FitCircleSplitMiddle d H w False False co = Some (Inr s1) \<and>
           FitCircleOffsetMiddleHalfPiece d H w False False co = Some (Inr s2) \<and>
           FitCircleSplitMiddle d H w True True co = Some (Inr s3) \<and>
           FitCircleOffsetMiddleHalfPiece d H w True True co = Some (Inr s4) \<and>
           FitCircleSplitMiddle d H w True False co = Some (Inr s5) \<and>
           FitCircleOffsetMiddleHalfPiece d H w True False co = Some (Inr s6) \<and>
           widths_middles_errors_align r =
             [(s1, False), (s2, False), (s3, True), (s4, True), (s5, True), (s6, True)] \<and>
           snd (best_aligned r) =
             Min {snd (snd s3), snd (snd s4), snd (snd s5), snd (snd s6)} \<and>
           fst (best_aligned r) < 4 \<and>
           [snd (snd s3), snd (snd s4), snd (snd s5), snd (snd s6)] ! fst (best_aligned r)
             = snd (best_aligned r) \<and>
           snd (best_unaligned r) = Min {snd (snd s1), snd (snd s2)} \<and>
           fst (best_unaligned r) < 2 \<and>
           [snd (snd s1), snd (snd s2)] ! fst (best_unaligned r) = snd (best_unaligned r)"
proof -
  from assms obtain s1 s2 s3 s4 s5 s6 ma mu where
    s: "FitCircleSplitMiddle d H w False False co = Some (Inr s1)"
       "FitCircleOffsetMiddleHalfPiece d H w False False co = Some (Inr s2)"
       "FitCircleSplitMiddle d H w True True co = Some (Inr s3)"
       "FitCircleOffsetMiddleHalfPiece d H w True True co = Some (Inr s4)"
       "FitCircleSplitMiddle d H w True False co = Some (Inr s5)"
       "FitCircleOffsetMiddleHalfPiece d H w True False co = Some (Inr s6)"
    and ma: "min_enumerate [snd (snd s3), snd (snd s4), snd (snd s5), snd (snd s6)] = Inr ma"
    and mu: "min_enumerate [snd (snd s1), snd (snd s2)] = Inr mu"
    and r: "r = \<lparr>best_aligned = ma, best_unaligned = mu,
                 widths_middles_errors_align =
                   [(s1, False), (s2, False), (s3, True), (s4, True), (s5, True), (s6, True)]\<rparr>"
    unfolding FitCircle_def
    by (auto simp: bind_r_def Let_def case_prod_beta split: option.splits sum.splits)
  show ?thesis
    using s min_enumerate_4[OF ma] min_enumerate_2[OF mu] unfolding r by simp
qed

theorem FitCircle_champions_witness:
  "\<exists>r s3 s4 s5 s6. FitCircle 3 (PyInt 2) 5 False = Some (Inr r) \<and>
     snd (best_aligned r) = Min {snd (snd s3), snd (snd s4), snd (snd s5), snd (snd s6)} \<and>
     FitCircleSplitMiddle 3 (PyInt 2) 5 True True False = Some (Inr s3) \<and>
     FitCircleOffsetMiddleHalfPiece 3 (PyInt 2) 5 True True False = Some (Inr s4) \<and>
     FitCircleSplitMiddle 3 (PyInt 2) 5 True False False = Some (Inr s5) \<and>
     FitCircleOffsetMiddleHalfPiece 3 (PyInt 2) 5 True False False = Some (Inr s6)"
  using FitCircle_champions[OF FitCircle_3] FitCircle_3 by blast

text \<open>
  Claim C9 as stated fails: for diameter \<open>3\<close>, \<^verbatim>\<open>piece_height = 2\<close>, \<^verbatim>\<open>pip_width = 5\<close>,
  circumscribed, the list of \<^verbatim>\<open>FitCircle\<close> has four entries tagged aligned and two tagged
  unaligned, not three and three.
\<close>

theorem FitCircle_four_aligned_two_unaligned:
  "FitCircle 3 (PyInt 2) 5 False =
     Some (Inr \<lparr>best_aligned = (0, 0), best_unaligned = (0, 0),
                widths_middles_errors_align =
                  [(([], 0, 0), False), (([], 0, 2 * \<bar>segmentArea 3 0 1 - 5\<bar>), False),
                   (([], 0, 0), True), (([], 0, 2 * \<bar>segmentArea 3 0 1 - 5\<bar>), True),
                   (([], 0, 0), True), (([], 0, 2 * \<bar>segmentArea 3 0 1 - 5\<bar>), True)]\<rparr>) \<and>
   length (filter snd
     [(([], 0, 0) :: solution, False), (([], 0, 2 * \<bar>segmentArea 3 0 1 - 5\<bar>), False),
      (([], 0, 0), True), (([], 0, 2 * \<bar>segmentArea 3 0 1 - 5\<bar>), True),
      (([], 0, 0), True), (([], 0, 2 * \<bar>segmentArea 3 0 1 - 5\<bar>), True)]) = 4 \<and>
   length (filter (Not \<circ> snd)
     [(([], 0, 0) :: solution, False), (([], 0, 2 * \<bar>segmentArea 3 0 1 - 5\<bar>), False),
      (([], 0, 0), True), (([], 0, 2 * \<bar>segmentArea 3 0 1 - 5\<bar>), True),
      (([], 0, 0), True), (([], 0, 2 * \<bar>segmentArea 3 0 1 - 5\<bar>), True)]) = 2"
  using FitCircle_3 by simp

text \<open>
  Claim C10. For \<open>0 \<le> y \<le> radius\<close>, the slice error at width \<open>0\<close> is the same for any two
  heights: it is the area expression of the whole cap above \<open>y\<close>, in which the height does
  not occur.
\<close>

theorem zero_width_error_ignores_height:
  assumes "0 < d" "0 \<le> y" "y \<le> d / 2"
  shows "ComputeSliceError d y h1 0 = ComputeSliceError d y h2 0 \<and>
         ComputeSliceError d y h1 0 =
           Inr (arccos (y / (d / 2)) * ((d / 2) * (d / 2)) - y * sqrt ((d / 2) * (d / 2) - y * y))"
  using in_disk[OF assms] assms(1) by (simp add: ComputeSliceError_zero_width)

theorem zero_width_error_ignores_height_witness:
  "ComputeSliceError 20 4 2 0 = ComputeSliceError 20 4 7 0"
  using zero_width_error_ignores_height[of 20 4 2 7] by simp

end
